theory Spec2Isabelle
  imports
    Complex_Main
    "HOL-Library.AList"
    "HOL-Library.Char_ord"
    "HOL-Library.List_Lexorder"
    "HOL-Library.Word"
begin

unbundle bit_operations_syntax

section \<open>Python values, errors and library functions\<close>

text \<open>
  The development embeds the control logic of the synthetic doctor-patient dialogue
  generator: the parsers of \<^verbatim>\<open>generation/manager_logic.py\<close>, the turn budget and
  the dialogue loop of \<^verbatim>\<open>generation/session_runner.py\<close>, the profile sampler of
  \<^verbatim>\<open>generation/profile_generation.py\<close> and the facet selection of
  \<^verbatim>\<open>generation/background_writer.py\<close>.

  Conventions. A Python \<^verbatim>\<open>str\<close> is a \<^typ>\<open>string\<close> whose characters are the code
  points below 256. An exception is a value \<open>Inl e\<close> of a sum type. A language-model call
  is an oracle: a function from the index of the turn to the text the call returns
  (\<open>None\<close> when the call itself raises). The values \<^verbatim>\<open>json.loads\<close> can return are the
  datatype \<open>json\<close>; \<^verbatim>\<open>json.loads\<close> itself and the text \<^verbatim>\<open>str()\<close> gives for a
  value are library functions, taken as the fields of a \<open>runtime\<close> record. Console
  printing, token accounting and prompt traces have no effect on control flow and are
  left out.
\<close>

datatype py_error =
    AttributeError
  | NameError
  | KeyError
  | IndexError
  | ValueError
  | TypeError
  | AgentCallError

datatype pyfloat = Finite rat | PosInf | NegInf | NaN

datatype json =
    JNull
  | JBool bool
  | JInt int
  | JFloat pyfloat
  | JStr string
  | JArr "json list"
  | JObj "(string \<times> json) list"

text \<open>Python truthiness of a decoded JSON value (\<^verbatim>\<open>x or ""\<close>, \<^verbatim>\<open>if x\<close>).\<close>

fun truthy :: "json \<Rightarrow> bool" where
  "truthy JNull = False"
| "truthy (JBool b) = b"
| "truthy (JInt i) = (i \<noteq> 0)"
| "truthy (JFloat f) = (f \<noteq> Finite 0)"
| "truthy (JStr s) = (s \<noteq> [])"
| "truthy (JArr xs) = (xs \<noteq> [])"
| "truthy (JObj kvs) = (kvs \<noteq> [])"

record runtime =
  json_loads :: "string \<Rightarrow> json option"
  py_str :: "json \<Rightarrow> string"

text \<open>
  \<open>json_loads rt s = None\<close> stands for \<^verbatim>\<open>json.JSONDecodeError\<close>. An f-string field
  \<^verbatim>\<open>{v}\<close> is the string itself for a \<^verbatim>\<open>str\<close> and \<open>py_str rt v\<close> otherwise.
\<close>

definition fmt :: "runtime \<Rightarrow> json \<Rightarrow> string" where
  "fmt rt v = (case v of JStr s \<Rightarrow> s | _ \<Rightarrow> py_str rt v)"

text \<open>\<^verbatim>\<open>d.get(k, default)\<close> on a dictionary kept as an association list.\<close>

definition dict_get :: "('k \<times> 'v) list \<Rightarrow> 'k \<Rightarrow> 'v \<Rightarrow> 'v" where
  "dict_get d k dflt = (case map_of d k of Some v \<Rightarrow> v | None \<Rightarrow> dflt)"

subsection \<open>String methods\<close>

definition isspace :: "char \<Rightarrow> bool" where
  "isspace c = (of_char c \<in> {9, 10, 11, 12, 13, 28, 29, 30, 31, 32, 133, 160 :: nat})"

definition strip :: "string \<Rightarrow> string" where
  "strip s = rev (dropWhile isspace (rev (dropWhile isspace s)))"

definition startswith :: "string \<Rightarrow> string \<Rightarrow> bool" where
  "startswith s p = (take (length p) s = p)"

definition endswith :: "string \<Rightarrow> string \<Rightarrow> bool" where
  "endswith s p = (length p \<le> length s \<and> drop (length s - length p) s = p)"

text \<open>The code-fence stripping shared by all four parsers, up to \<^verbatim>\<open>json.loads\<close>.\<close>

definition strip_code_fences :: "string \<Rightarrow> string" where
  "strip_code_fences out =
     (let c0 = strip out;
          c1 = (if startswith c0 ''```json'' then drop 7 c0 else c0);
          c2 = (if startswith c1 ''```'' then drop 3 c1 else c1);
          c3 = (if endswith c2 ''```'' then take (length c2 - 3) c2 else c2)
      in strip c3)"

subsection \<open>The random source\<close>

text \<open>
  A \<^verbatim>\<open>random.Random\<close> object is a stream of raw draws and a read position. Every
  primitive reads one draw; \<^verbatim>\<open>choice\<close>, \<^verbatim>\<open>randint\<close> and \<^verbatim>\<open>sample\<close> reduce it
  modulo the size of the range, \<^verbatim>\<open>random()\<close> is a multiple of \<open>2\<^sup>-\<^sup>5\<^sup>3\<close> in
  \<open>[0, 1)\<close>. Every result the library can give is the result for some stream.
  Weights are rationals, so the cumulative sums of \<^verbatim>\<open>choices\<close> are exact here where
  the library rounds.
\<close>

record rng_state =
  draws :: "nat \<Rightarrow> nat"
  pos :: nat

definition rng_next :: "rng_state \<Rightarrow> nat \<times> rng_state" where
  "rng_next r = (draws r (pos r), r\<lparr>pos := Suc (pos r)\<rparr>)"

definition randbelow :: "nat \<Rightarrow> rng_state \<Rightarrow> nat \<times> rng_state" where
  "randbelow n r = (case rng_next r of (d, r') \<Rightarrow> (d mod n, r'))"

definition rng_choice :: "'a list \<Rightarrow> rng_state \<Rightarrow> py_error + ('a \<times> rng_state)" where
  "rng_choice xs r =
     (if xs = [] then Inl IndexError
      else case randbelow (length xs) r of (i, r') \<Rightarrow> Inr (xs ! i, r'))"

definition randint :: "nat \<Rightarrow> nat \<Rightarrow> rng_state \<Rightarrow> py_error + (nat \<times> rng_state)" where
  "randint a b r =
     (if b < a then Inl ValueError
      else case randbelow (b - a + 1) r of (i, r') \<Rightarrow> Inr (a + i, r'))"







section \<open>Manager output parsers (manager\_logic.py)\<close>

record doctor_decision =
  next_action :: json
  reason :: json
  doctor_instruction :: string
  dsm_symptom_key :: json

definition parse_doctor_manager_output ::
  "runtime \<Rightarrow> string \<Rightarrow> string list \<Rightarrow> rng_state \<Rightarrow> py_error + (doctor_decision \<times> rng_state)" where
  "parse_doctor_manager_output rt manager_output dsm_symptom_keys g =
     (case json_loads rt (strip_code_fences manager_output) of
        None \<Rightarrow>
          (if dsm_symptom_keys \<noteq> [] then
             (case rng_choice dsm_symptom_keys g of
                Inl e \<Rightarrow> Inl e
              | Inr (fallback_key, g') \<Rightarrow>
                  Inr (\<lparr>next_action = JStr ''DSM'',
                        reason = JStr ''Doctor manager returned invalid JSON, using fallback'',
                        doctor_instruction = ''Ask about '' @ fallback_key @ ''.'',
                        dsm_symptom_key = JStr fallback_key\<rparr>, g'))
           else
             Inr (\<lparr>next_action = JStr ''FOLLOW_UP'',
                   reason = JStr ''Doctor manager returned invalid JSON, using follow-up fallback'',
                   doctor_instruction = ''Follow up on what the patient just said.'',
                   dsm_symptom_key = JStr ''''\<rparr>, g))
      | Some (JObj manager_decision) \<Rightarrow>
          (let na = dict_get manager_decision ''next_action'' (JStr ''DSM'');
               rs = dict_get manager_decision ''reason'' (JStr '''');
               di0 = dict_get manager_decision ''doctor_instruction'' (JStr '''');
               di1 = (if truthy di0 then di0 else JStr '''');
               key = dict_get manager_decision ''dsm_symptom_key'' (JStr '''')
           in case di1 of
                JStr di \<Rightarrow>
                  Inr (\<lparr>next_action = na,
                        reason = rs,
                        doctor_instruction =
                          (if strip di = [] then
                             (if na = JStr ''DSM'' then
                                ''Transition naturally to asking about '' @
                                  (if truthy key then fmt rt key else ''the next symptom area'') @ ''.''
                              else if na = JStr ''FOLLOW_UP'' then
                                ''Follow up on what the patient just said.''
                              else ''Connect with the patient as a person.'')
                           else di),
                        dsm_symptom_key = key\<rparr>, g)
              | _ \<Rightarrow> Inl AttributeError)
      | Some _ \<Rightarrow> Inl AttributeError)"

record post_dsm_decision =
  post_next_action :: json
  post_reason :: json
  post_doctor_instruction :: string

definition parse_post_dsm_manager_output :: "runtime \<Rightarrow> string \<Rightarrow> py_error + post_dsm_decision" where
  "parse_post_dsm_manager_output rt manager_output =
     (case json_loads rt (strip_code_fences manager_output) of
        None \<Rightarrow>
          Inr \<lparr>post_next_action = JStr ''END'',
               post_reason = JStr ''Post-DSM manager returned invalid JSON, defaulting to END'',
               post_doctor_instruction = ''Wrap up the visit warmly.''\<rparr>
      | Some (JObj manager_decision) \<Rightarrow>
          (let na = dict_get manager_decision ''next_action'' (JStr ''END'');
               rs = dict_get manager_decision ''reason'' (JStr '''');
               di0 = dict_get manager_decision ''doctor_instruction'' (JStr '''');
               di1 = (if truthy di0 then di0 else JStr '''')
           in case di1 of
                JStr di \<Rightarrow>
                  Inr \<lparr>post_next_action = na,
                       post_reason = rs,
                       post_doctor_instruction =
                         (if strip di = [] then
                            (if na = JStr ''END'' then ''Wrap up the visit warmly.''
                             else if na = JStr ''FOLLOW_UP'' then
                               ''Follow up on what the patient just said.''
                             else ''Respond with empathy.'')
                          else di)\<rparr>
              | _ \<Rightarrow> Inl AttributeError)
      | Some _ \<Rightarrow> Inl AttributeError)"

record guidance =
  directness :: json
  disclosure_stage :: json
  target_length :: json
  emotional_state :: json
  tone_tags :: json
  key_points_to_reveal :: json
  key_points_to_avoid :: json
  patient_instruction :: json

definition guidance_defaults :: "(string \<times> string) list \<Rightarrow> json \<Rightarrow> guidance" where
  "guidance_defaults base_voice_style current_disclosure_state =
     (let verbosity = dict_get base_voice_style ''verbosity'' ''moderate'';
          trust = dict_get base_voice_style ''trust'' ''neutral'';
          default_length =
            (if verbosity = ''terse'' then ''SHORT''
             else if verbosity = ''detailed'' then ''LONG'' else ''MEDIUM'');
          default_directness =
            (if trust = ''guarded'' then ''LOW''
             else if trust = ''open'' then ''HIGH'' else ''MED'')
      in \<lparr>directness = JStr default_directness,
          disclosure_stage = current_disclosure_state,
          target_length = JStr default_length,
          emotional_state = JStr ''neutral'',
          tone_tags = JArr [JStr ''cooperative''],
          key_points_to_reveal = JArr [],
          key_points_to_avoid = JArr [],
          patient_instruction =
            JStr ''Answer in a way consistent with your profile, moderately direct, and do not overshare.''\<rparr>)"

definition parse_patient_manager_output ::
  "runtime \<Rightarrow> string \<Rightarrow> (string \<times> string) list \<Rightarrow> json \<Rightarrow> py_error + guidance" where
  "parse_patient_manager_output rt text base_voice_style current_disclosure_state =
     (let defaults = guidance_defaults base_voice_style current_disclosure_state in
      case json_loads rt (strip_code_fences text) of
        None \<Rightarrow> Inr defaults
      | Some (JObj parsed) \<Rightarrow>
          Inr \<lparr>directness = dict_get parsed ''directness'' (directness defaults),
               disclosure_stage = dict_get parsed ''disclosure_stage'' (disclosure_stage defaults),
               target_length = dict_get parsed ''target_length'' (target_length defaults),
               emotional_state = dict_get parsed ''emotional_state'' (emotional_state defaults),
               tone_tags = dict_get parsed ''tone_tags'' (tone_tags defaults),
               key_points_to_reveal =
                 dict_get parsed ''key_points_to_reveal'' (key_points_to_reveal defaults),
               key_points_to_avoid =
                 dict_get parsed ''key_points_to_avoid'' (key_points_to_avoid defaults),
               patient_instruction =
                 dict_get parsed ''patient_instruction'' (patient_instruction defaults)\<rparr>
      | Some _ \<Rightarrow> Inl AttributeError)"

section \<open>Turn budget (config.py, session\_runner.py)\<close>

definition PACING_TARGETS :: "(string \<times> rat) list" where
  "PACING_TARGETS = [(''brisk'', 3 / 2), (''med'', 2), (''slow'', 5 / 2)]"

definition EXTENDED_PACING_PERSONAS :: "string set" where
  "EXTENDED_PACING_PERSONAS = {''very_warm_chatty'', ''trauma_informed_slow''}"

definition NUM_DSM_ITEMS :: nat where
  "NUM_DSM_ITEMS = 9"

definition BUFFER_TURNS :: nat where
  "BUFFER_TURNS = 5"

definition DSM_ITEMS :: "string list" where
  "DSM_ITEMS =
     [''Depressed mood'',
      ''Loss of interest or pleasure'',
      ''Significant weight/appetite changes'',
      ''Sleep disturbances'',
      ''Psychomotor agitation or retardation'',
      ''Fatigue or loss of energy'',
      ''Feelings of worthlessness or excessive guilt'',
      ''Difficulty concentrating or indecisiveness'',
      ''Recurrent thoughts of death or suicide'']"

record turn_budget =
  target_turns_per_symptom :: rat
  base_turn_budget :: nat
  max_doctor_turns :: nat
  dsm_turn_budget :: nat

text \<open>
  The turn budget of a session, from the microstyle dictionary and the persona id. The
  targets and their products with 9 are multiples of one half, so the rational
  arithmetic is the floating-point arithmetic of the source.
\<close>

definition compute_turn_budget :: "(string \<times> string) list \<Rightarrow> string \<Rightarrow> turn_budget" where
  "compute_turn_budget doctor_microstyle doctor_persona_id =
     (let microstyle_pacing = dict_get doctor_microstyle ''pacing'' ''med'';
          base_target = dict_get PACING_TARGETS microstyle_pacing 2;
          target =
            (if doctor_persona_id \<in> EXTENDED_PACING_PERSONAS
             then min (base_target + 1 / 2) 3 else base_target);
          base = nat \<lceil>target * of_nat NUM_DSM_ITEMS\<rceil>
      in \<lparr>target_turns_per_symptom = target,
          base_turn_budget = base,
          max_doctor_turns = base + BUFFER_TURNS + 1,
          dsm_turn_budget = base\<rparr>)"

section \<open>The dialogue loop (session\_runner.py)\<close>

record agents =
  doctor_manager_agent :: "nat \<Rightarrow> string option"
  doctor_agent :: "nat \<Rightarrow> string option"
  patient_manager_agent :: "nat \<Rightarrow> string option"
  patient_agent :: "nat \<Rightarrow> string option"

text \<open>
  \<open>doctor_manager_agent ag n\<close> is the text of the one manager call of the loop iteration
  entered with \<open>doctor_turns_elapsed = n\<close> (whichever of the four manager prompts that
  iteration uses), \<open>doctor_agent ag n\<close> the doctor's reply of that iteration.
  \<open>patient_manager_agent ag 0\<close> and \<open>patient_agent ag 0\<close> answer the greeting, index
  \<open>n + 1\<close> answers the doctor turn of iteration \<open>n\<close>.
\<close>

definition call :: "(nat \<Rightarrow> string option) \<Rightarrow> nat \<Rightarrow> py_error + string" where
  "call agent n = (case agent n of None \<Rightarrow> Inl AgentCallError | Some out \<Rightarrow> Inr out)"

definition then_do :: "'e + 'a \<Rightarrow> ('a \<Rightarrow> 'e + 'b) \<Rightarrow> 'e + 'b" where
  "then_do m f = (case m of Inl e \<Rightarrow> Inl e | Inr x \<Rightarrow> f x)"

record decision_log =
  log_turn :: nat
  manager_type :: string
  log_next_action :: json
  log_reason :: json
  log_doctor_instruction :: string
  log_dsm_symptom_key :: json

record guidance_log =
  pm_turn :: nat
  doctor_move :: json
  pm_guidance :: guidance

record session_state =
  budget :: turn_budget
  conversation_history :: "(string \<times> string) list"
  dsm_pool :: "string list"
  asked_question_order :: "string list"
  doctor_manager_decisions :: "decision_log list"
  patient_manager_decisions :: "guidance_log list"
  disclosure_state :: json
  doctor_turns_elapsed :: nat
  var_dsm_symptom_key :: "json option"
  patient_reply :: string
  module_random :: rng_state

text \<open>
  \<open>var_dsm_symptom_key\<close> is the local variable \<^verbatim>\<open>dsm_symptom_key\<close>, \<open>None\<close> while it
  is unbound; \<open>module_random\<close> is the state of the module-level \<^verbatim>\<open>random\<close> that the
  fallback of \<open>parse_doctor_manager_output\<close> draws from.
\<close>

datatype turn_outcome =
    End session_state
  | Move json string session_state

definition closing_msg :: string where
  "closing_msg = ''Thank you for sharing today. Based on what we've discussed, I'll review everything and we can talk about next steps. Is there anything else you'd like to add before we wrap up?''"

definition final_msg :: string where
  "final_msg = ''Thank you for sharing. Is there anything else you'd like to discuss today?''"

text \<open>
  The first part of the loop body: the branch on the remaining resources, the manager
  call of that branch and the decision it logs. \<open>End\<close> is the \<^verbatim>\<open>break\<close> of the
  post-DSM branch; \<open>Move next_action doctor_instruction\<close> continues the body.
\<close>

definition doctor_manager_step :: "runtime \<Rightarrow> agents \<Rightarrow> session_state \<Rightarrow> py_error + turn_outcome" where
  "doctor_manager_step rt ag s =
     (let n = doctor_turns_elapsed s;
          remaining_total_turns = max_doctor_turns (budget s) - n;
          remaining_dsm_turns = dsm_turn_budget (budget s) - n;
          remaining_dsm_items = length (dsm_pool s)
      in
      if remaining_dsm_items = 0 then
        then_do (call (doctor_manager_agent ag) n) (\<lambda>post_dsm_output.
        then_do (parse_post_dsm_manager_output rt post_dsm_output) (\<lambda>d.
          let s1 = s\<lparr>doctor_manager_decisions := doctor_manager_decisions s @
                    [\<lparr>log_turn = n + 1, manager_type = ''post_dsm'',
                      log_next_action = post_next_action d, log_reason = post_reason d,
                      log_doctor_instruction = post_doctor_instruction d,
                      log_dsm_symptom_key = JStr []\<rparr>]\<rparr>
          in if post_next_action d = JStr ''END''
             then Inr (End (s1\<lparr>conversation_history :=
                                 conversation_history s1 @ [(''assistant'', closing_msg)]\<rparr>))
             else Inr (Move (post_next_action d) (post_doctor_instruction d) s1)))
      else if remaining_total_turns \<le> remaining_dsm_items then
        (case dsm_pool s of
           [] \<Rightarrow> Inl IndexError
         | key # _ \<Rightarrow>
             then_do (call (doctor_manager_agent ag) n) (\<lambda>force_dsm_output.
             then_do (parse_doctor_manager_output rt force_dsm_output (dsm_pool s) (module_random s))
               (\<lambda>(d, g').
                  Inr (Move (JStr ''DSM'') (doctor_instruction d)
                    (s\<lparr>var_dsm_symptom_key := Some (JStr key),
                       module_random := g',
                       doctor_manager_decisions := doctor_manager_decisions s @
                         [\<lparr>log_turn = n + 1, manager_type = ''forced_dsm_coverage'',
                           log_next_action = JStr ''DSM'', log_reason = reason d,
                           log_doctor_instruction = doctor_instruction d,
                           log_dsm_symptom_key = JStr key\<rparr>]\<rparr>)))))
      else
        (let ratio = (of_nat remaining_dsm_turns :: rat) / of_nat remaining_dsm_items;
             mtype = (if ratio < target_turns_per_symptom (budget s)
                      then ''low_turns'' else ''normal'')
         in
         then_do (call (doctor_manager_agent ag) n) (\<lambda>doctor_manager_output.
         then_do (parse_doctor_manager_output rt doctor_manager_output (dsm_pool s) (module_random s))
           (\<lambda>(d, g').
              Inr (Move (next_action d) (doctor_instruction d)
                (s\<lparr>var_dsm_symptom_key := Some (dsm_symptom_key d),
                   module_random := g',
                   doctor_manager_decisions := doctor_manager_decisions s @
                     [\<lparr>log_turn = n + 1, manager_type = mtype,
                       log_next_action = next_action d, log_reason = reason d,
                       log_doctor_instruction = doctor_instruction d,
                       log_dsm_symptom_key =
                         (if next_action d = JStr ''DSM'' then dsm_symptom_key d
                          else JStr [])\<rparr>]\<rparr>))))))"

text \<open>\<^verbatim>\<open>dsm_symptom_key in dsm_pool\<close>: the pool holds strings only.\<close>

definition key_in_pool :: "json \<Rightarrow> string list \<Rightarrow> bool" where
  "key_in_pool k pool = (case k of JStr x \<Rightarrow> x \<in> set pool | _ \<Rightarrow> False)"

definition ask_item :: "string \<Rightarrow> session_state \<Rightarrow> session_state" where
  "ask_item x s =
     s\<lparr>dsm_pool := remove1 x (dsm_pool s),
       asked_question_order := asked_question_order s @ [x]\<rparr>"

text \<open>
  The directive block after the increment of the turn counter: a DSM move asks the
  chosen key when it is pending and the first pending item otherwise. The result is
  the doctor instruction and the state.
\<close>

definition apply_decision :: "json \<Rightarrow> string \<Rightarrow> session_state \<Rightarrow> py_error + (string \<times> session_state)" where
  "apply_decision na instruction s =
     (if na = JStr ''DSM'' then
        (case var_dsm_symptom_key s of
           None \<Rightarrow> Inl NameError
         | Some k \<Rightarrow>
             if key_in_pool k (dsm_pool s) then
               (case k of JStr x \<Rightarrow> Inr (instruction, ask_item x s) | _ \<Rightarrow> Inr (instruction, s))
             else
               (case dsm_pool s of
                  [] \<Rightarrow> Inr (instruction, s)
                | x # _ \<Rightarrow>
                    Inr (''Ask about '' @ x @ '' in a natural, conversational way.'',
                         ask_item x (s\<lparr>var_dsm_symptom_key := Some (JStr x)\<rparr>))))
      else Inr (instruction, s))"

text \<open>
  The ground-truth note reads \<^verbatim>\<open>depression_profile.get(dsm_symptom_key)\<close> after a DSM
  move with a truthy key: a list or a dictionary as key is unhashable.
\<close>

definition ground_truth_check :: "json \<Rightarrow> session_state \<Rightarrow> py_error + unit" where
  "ground_truth_check last_doctor_move s =
     (if last_doctor_move = JStr ''DSM'' then
        (case var_dsm_symptom_key s of
           None \<Rightarrow> Inl NameError
         | Some (JArr xs) \<Rightarrow> if xs \<noteq> [] then Inl TypeError else Inr ()
         | Some (JObj kvs) \<Rightarrow> if kvs \<noteq> [] then Inl TypeError else Inr ()
         | Some _ \<Rightarrow> Inr ())
      else Inr ())"

text \<open>
  The patient's side of a turn: the patient manager's guidance, the overwrite of
  \<open>disclosure_state\<close> with its \<open>disclosure_stage\<close>, and the patient's reply. \<open>idx\<close> is the
  index of the two patient calls, \<open>turn\<close> the number the source logs.
\<close>

definition patient_turn ::
  "runtime \<Rightarrow> agents \<Rightarrow> (string \<times> string) list \<Rightarrow> nat \<Rightarrow> nat \<Rightarrow> json \<Rightarrow> bool \<Rightarrow> session_state
     \<Rightarrow> py_error + session_state" where
  "patient_turn rt ag voice_style idx turn last_doctor_move in_loop s =
     then_do (call (patient_manager_agent ag) idx) (\<lambda>pm_output_text.
     then_do (parse_patient_manager_output rt pm_output_text voice_style (disclosure_state s)) (\<lambda>g.
     then_do (if in_loop then ground_truth_check last_doctor_move s else Inr ()) (\<lambda>_.
     then_do (call (patient_agent ag) idx) (\<lambda>reply.
       Inr (s\<lparr>disclosure_state := disclosure_stage g,
              patient_manager_decisions := patient_manager_decisions s @
                [\<lparr>pm_turn = turn, doctor_move = last_doctor_move, pm_guidance = g\<rparr>],
              patient_reply := reply,
              conversation_history := conversation_history s @ [(''user'', reply)]\<rparr>)))))"

datatype loop_signal = Break session_state | Continue session_state

definition loop_body ::
  "runtime \<Rightarrow> agents \<Rightarrow> (string \<times> string) list \<Rightarrow> session_state \<Rightarrow> py_error + loop_signal" where
  "loop_body rt ag voice_style s =
     then_do (doctor_manager_step rt ag s) (\<lambda>outcome.
       case outcome of
         End s1 \<Rightarrow> Inr (Break s1)
       | Move na instruction s1 \<Rightarrow>
           (let n = doctor_turns_elapsed s1;
                s2 = s1\<lparr>doctor_turns_elapsed := n + 1\<rparr>
            in
            then_do (apply_decision na instruction s2) (\<lambda>(instruction', s3).
            then_do (call (doctor_agent ag) n) (\<lambda>doctor_reply.
              let s4 = s3\<lparr>conversation_history :=
                            conversation_history s3 @ [(''assistant'', doctor_reply)]\<rparr>
              in then_do (patient_turn rt ag voice_style (n + 1) (n + 1) na True s4)
                   (\<lambda>s5. Inr (Continue s5))))))"

subsection \<open>What one iteration leaves unchanged\<close>

lemma then_do_simps [simp]:
  "then_do (Inl e) f = Inl e"
  "then_do (Inr x) f = f x"
  by (simp_all add: then_do_def)

lemma then_do_eq_Inr:
  "then_do m f = Inr y \<longleftrightarrow> (\<exists>x. m = Inr x \<and> f x = Inr y)"
  by (cases m) simp_all

lemma doctor_manager_step_Move:
  assumes "doctor_manager_step rt ag s = Inr (Move na i s1)"
  shows "budget s1 = budget s \<and> dsm_pool s1 = dsm_pool s
       \<and> asked_question_order s1 = asked_question_order s
       \<and> doctor_turns_elapsed s1 = doctor_turns_elapsed s
       \<and> disclosure_state s1 = disclosure_state s
       \<and> conversation_history s1 = conversation_history s"
  using assms
  by (auto simp: doctor_manager_step_def Let_def then_do_eq_Inr
      split: if_splits list.splits prod.splits)

lemma doctor_manager_step_End:
  assumes "doctor_manager_step rt ag s = Inr (End s1)"
  shows "budget s1 = budget s \<and> dsm_pool s1 = dsm_pool s \<and> dsm_pool s = []
       \<and> asked_question_order s1 = asked_question_order s
       \<and> doctor_turns_elapsed s1 = doctor_turns_elapsed s
       \<and> disclosure_state s1 = disclosure_state s"
  using assms
  by (auto simp: doctor_manager_step_def Let_def then_do_eq_Inr
      split: if_splits list.splits prod.splits)

lemma apply_decision_frame:
  assumes "apply_decision na i s = Inr (i', s')"
  shows "budget s' = budget s \<and> doctor_turns_elapsed s' = doctor_turns_elapsed s
       \<and> disclosure_state s' = disclosure_state s"
  using assms
  by (auto simp: apply_decision_def ask_item_def
      split: if_splits option.splits json.splits list.splits)

lemma patient_turn_frame:
  assumes "patient_turn rt ag vs idx t mv b s = Inr s'"
  shows "budget s' = budget s \<and> doctor_turns_elapsed s' = doctor_turns_elapsed s
       \<and> dsm_pool s' = dsm_pool s \<and> asked_question_order s' = asked_question_order s
       \<and> var_dsm_symptom_key s' = var_dsm_symptom_key s"
  using assms
  by (auto simp: patient_turn_def then_do_eq_Inr)

lemma loop_body_ContinueE:
  assumes "loop_body rt ag vs s = Inr (Continue s')"
  obtains na i s1 i' s3 reply where
    "doctor_manager_step rt ag s = Inr (Move na i s1)"
    "apply_decision na i (s1\<lparr>doctor_turns_elapsed := doctor_turns_elapsed s1 + 1\<rparr>) = Inr (i', s3)"
    "call (doctor_agent ag) (doctor_turns_elapsed s1) = Inr reply"
    "patient_turn rt ag vs (doctor_turns_elapsed s1 + 1) (doctor_turns_elapsed s1 + 1) na True
       (s3\<lparr>conversation_history := conversation_history s3 @ [(''assistant'', reply)]\<rparr>) = Inr s'"
proof -
  from assms obtain outcome where o: "doctor_manager_step rt ag s = Inr outcome"
    and r: "(case outcome of
         End s1 \<Rightarrow> Inr (Break s1)
       | Move na instruction s1 \<Rightarrow>
           (let n = doctor_turns_elapsed s1;
                s2 = s1\<lparr>doctor_turns_elapsed := n + 1\<rparr>
            in
            then_do (apply_decision na instruction s2) (\<lambda>(instruction', s3).
            then_do (call (doctor_agent ag) n) (\<lambda>doctor_reply.
              let s4 = s3\<lparr>conversation_history :=
                            conversation_history s3 @ [(''assistant'', doctor_reply)]\<rparr>
              in then_do (patient_turn rt ag vs (n + 1) (n + 1) na True s4)
                   (\<lambda>s5. Inr (Continue s5)))))) = Inr (Continue s')"
    unfolding loop_body_def then_do_eq_Inr by blast
  show thesis
  proof (cases outcome)
    case (End s1)
    with r show ?thesis by simp
  next
    case (Move na i s1)
    with r obtain i' s3 reply where
      "apply_decision na i (s1\<lparr>doctor_turns_elapsed := doctor_turns_elapsed s1 + 1\<rparr>) = Inr (i', s3)"
      "call (doctor_agent ag) (doctor_turns_elapsed s1) = Inr reply"
      "patient_turn rt ag vs (doctor_turns_elapsed s1 + 1) (doctor_turns_elapsed s1 + 1) na True
         (s3\<lparr>conversation_history := conversation_history s3 @ [(''assistant'', reply)]\<rparr>) = Inr s'"
      by (auto simp: Let_def then_do_eq_Inr)
    with o Move that show ?thesis by blast
  qed
qed

lemma loop_body_Continue:
  assumes "loop_body rt ag vs s = Inr (Continue s')"
  shows "budget s' = budget s \<and> doctor_turns_elapsed s' = doctor_turns_elapsed s + 1"
proof -
  from assms obtain na i s1 i' s3 reply where
    1: "doctor_manager_step rt ag s = Inr (Move na i s1)" and
    2: "apply_decision na i (s1\<lparr>doctor_turns_elapsed := doctor_turns_elapsed s1 + 1\<rparr>) = Inr (i', s3)" and
    4: "patient_turn rt ag vs (doctor_turns_elapsed s1 + 1) (doctor_turns_elapsed s1 + 1) na True
       (s3\<lparr>conversation_history := conversation_history s3 @ [(''assistant'', reply)]\<rparr>) = Inr s'"
    by (rule loop_body_ContinueE)
  from doctor_manager_step_Move [OF 1] apply_decision_frame [OF 2] patient_turn_frame [OF 4]
  show ?thesis by simp
qed

lemma loop_body_BreakD:
  assumes "loop_body rt ag vs s = Inr (Break s')"
  shows "doctor_manager_step rt ag s = Inr (End s')"
proof -
  from assms obtain outcome where o: "doctor_manager_step rt ag s = Inr outcome"
    and r: "(case outcome of
         End s1 \<Rightarrow> Inr (Break s1)
       | Move na instruction s1 \<Rightarrow>
           (let n = doctor_turns_elapsed s1;
                s2 = s1\<lparr>doctor_turns_elapsed := n + 1\<rparr>
            in
            then_do (apply_decision na instruction s2) (\<lambda>(instruction', s3).
            then_do (call (doctor_agent ag) n) (\<lambda>doctor_reply.
              let s4 = s3\<lparr>conversation_history :=
                            conversation_history s3 @ [(''assistant'', doctor_reply)]\<rparr>
              in then_do (patient_turn rt ag vs (n + 1) (n + 1) na True s4)
                   (\<lambda>s5. Inr (Continue s5)))))) = Inr (Break s')"
    unfolding loop_body_def then_do_eq_Inr by blast
  show ?thesis
  proof (cases outcome)
    case (End s1)
    with r o show ?thesis by simp
  next
    case (Move na i s1)
    with r show ?thesis by (auto simp: Let_def then_do_eq_Inr)
  qed
qed

lemma loop_body_Break:
  assumes "loop_body rt ag vs s = Inr (Break s')"
  shows "budget s' = budget s \<and> doctor_turns_elapsed s' = doctor_turns_elapsed s
     \<and> dsm_pool s = [] \<and> dsm_pool s' = [] \<and> asked_question_order s' = asked_question_order s
     \<and> disclosure_state s' = disclosure_state s"
  using doctor_manager_step_End [OF loop_body_BreakD [OF assms]] by simp

subsection \<open>The loop and the session around it\<close>

text \<open>
  The \<^verbatim>\<open>while doctor_turns_elapsed < max_doctor_turns\<close> loop. It terminates because a
  completed iteration adds one to the counter and leaves the budget alone.
\<close>

function dialogue_loop ::
  "runtime \<Rightarrow> agents \<Rightarrow> (string \<times> string) list \<Rightarrow> session_state \<Rightarrow> py_error + session_state" where
  "dialogue_loop rt ag voice_style s =
     (if doctor_turns_elapsed s < max_doctor_turns (budget s) then
        (case loop_body rt ag voice_style s of
           Inl e \<Rightarrow> Inl e
         | Inr (Break s') \<Rightarrow> Inr s'
         | Inr (Continue s') \<Rightarrow> dialogue_loop rt ag voice_style s')
      else Inr s)"
  by pat_completeness auto
termination
proof (relation "measure (\<lambda>(rt, ag, vs, s). max_doctor_turns (budget s) - doctor_turns_elapsed s)")
  show "wf (measure (\<lambda>(rt, ag, vs, s). max_doctor_turns (budget s) - doctor_turns_elapsed s))"
    by simp
next
  fix rt ag voice_style s x2 x2a
  assume "doctor_turns_elapsed s < max_doctor_turns (budget s)"
    and "loop_body rt ag voice_style s = Inr x2" and "x2 = Continue x2a"
  then show "((rt, ag, voice_style, x2a), (rt, ag, voice_style, s))
      \<in> measure (\<lambda>(rt, ag, vs, s). max_doctor_turns (budget s) - doctor_turns_elapsed s)"
    using loop_body_Continue [of rt ag voice_style s x2a] by simp
qed

declare dialogue_loop.simps [simp del]

record personality =
  BIG5_TEMPLATE :: string
  AFFECTIVE_STYLE :: string
  COGNITIVE_STYLE :: string
  SOMATIC_STYLE :: string
  SPECIFIER_HINT :: string
  MODIFIERS :: "string list"
  PACING :: string
  CONTEXT_DOMAINS :: "string list"
  EPISODE_DENSITY :: string
  VOICE_STYLE :: "(string \<times> string) list"
  PERSONAL_BACKGROUND :: "(string \<times> string) list"
  AGE_RANGE :: string
  EMPH_INTENSITY :: "(string \<times> string) list"
  EXTRA_ELEVATED_SYMPTOMS :: "string list"

text \<open>
  The personality dictionary with the keys \<open>sample_patient_profile\<close> gives it; the
  defaults of \<^verbatim>\<open>personality.get\<close> for an absent key do not arise.
\<close>

record doctor_persona =
  persona_id :: string
  first_greeting :: string
  system_prompt :: string

definition init_disclosure_state :: "personality \<Rightarrow> string" where
  "init_disclosure_state p =
     (let voice_style = VOICE_STYLE p;
          trust = dict_get voice_style ''trust'' ''neutral'';
          verbosity = dict_get voice_style ''verbosity'' ''moderate''
      in if trust = ''guarded'' \<or> verbosity = ''terse'' then ''MINIMIZE''
         else if trust = ''open'' \<and> verbosity \<in> {''moderate'', ''detailed''} then ''OPEN''
         else ''PARTIAL'')"

definition initial_state ::
  "personality \<Rightarrow> (string \<times> string) list \<Rightarrow> doctor_persona \<Rightarrow> rng_state \<Rightarrow> session_state" where
  "initial_state p doctor_microstyle persona g =
     \<lparr>budget = compute_turn_budget doctor_microstyle (persona_id persona),
      conversation_history = [(''assistant'', first_greeting persona)],
      dsm_pool = DSM_ITEMS,
      asked_question_order = [],
      doctor_manager_decisions = [],
      patient_manager_decisions = [],
      disclosure_state = JStr (init_disclosure_state p),
      doctor_turns_elapsed = 0,
      var_dsm_symptom_key = None,
      patient_reply = [],
      module_random = g\<rparr>"

text \<open>The closing line when the patient spoke last; the doctor agent is called for it.\<close>

definition close_session :: "agents \<Rightarrow> session_state \<Rightarrow> py_error + session_state" where
  "close_session ag s =
     (case conversation_history s of
        [] \<Rightarrow> Inl IndexError
      | _ # _ \<Rightarrow>
          if fst (last (conversation_history s)) = ''user'' then
            then_do (call (doctor_agent ag) (doctor_turns_elapsed s)) (\<lambda>_.
              Inr (s\<lparr>conversation_history :=
                       conversation_history s @ [(''assistant'', final_msg)]\<rparr>))
          else Inr s)"

text \<open>
  The session from the greeting on, for a profile, microstyle and persona already
  chosen: the patient's answer to the greeting, the loop, the closing line.
\<close>

definition run_patient_doctor_session ::
  "runtime \<Rightarrow> agents \<Rightarrow> personality \<Rightarrow> (string \<times> string) list \<Rightarrow> doctor_persona \<Rightarrow> rng_state
     \<Rightarrow> py_error + session_state" where
  "run_patient_doctor_session rt ag p doctor_microstyle persona g =
     then_do (patient_turn rt ag (VOICE_STYLE p) 0 1 (JStr ''RAPPORT'') False
                (initial_state p doctor_microstyle persona g)) (\<lambda>s1.
     then_do (dialogue_loop rt ag (VOICE_STYLE p) s1) (\<lambda>s2.
       close_session ag s2))"

section \<open>Coverage of the nine DSM items\<close>

text \<open>
  The loop invariant: the items asked and the items pending are the nine DSM items,
  each once, and the pending ones never outnumber the turns that remain.
\<close>

definition coverage_inv :: "session_state \<Rightarrow> bool" where
  "coverage_inv s \<longleftrightarrow>
     distinct (asked_question_order s @ dsm_pool s) \<and>
     set (asked_question_order s) \<union> set (dsm_pool s) = set DSM_ITEMS \<and>
     doctor_turns_elapsed s + length (dsm_pool s) \<le> max_doctor_turns (budget s)"

lemma ask_item_fields [simp]:
  "dsm_pool (ask_item x s) = remove1 x (dsm_pool s)"
  "asked_question_order (ask_item x s) = asked_question_order s @ [x]"
  "budget (ask_item x s) = budget s"
  "doctor_turns_elapsed (ask_item x s) = doctor_turns_elapsed s"
  by (simp_all add: ask_item_def)

lemma key_in_poolE:
  assumes "key_in_pool k pool"
  obtains x where "k = JStr x" and "x \<in> set pool"
  using assms by (cases k) (simp_all add: key_in_pool_def)

lemma apply_decision_cases:
  assumes "apply_decision na i s = Inr (i', s')"
  shows "(dsm_pool s' = dsm_pool s \<and> asked_question_order s' = asked_question_order s) \<or>
         (\<exists>x \<in> set (dsm_pool s). dsm_pool s' = remove1 x (dsm_pool s) \<and>
            asked_question_order s' = asked_question_order s @ [x])"
proof (cases "na = JStr ''DSM''")
  case False
  with assms show ?thesis by (simp add: apply_decision_def)
next
  case dsm: True
  show ?thesis
  proof (cases "var_dsm_symptom_key s")
    case None
    with dsm assms show ?thesis by (simp add: apply_decision_def)
  next
    case (Some k)
    show ?thesis
    proof (cases "key_in_pool k (dsm_pool s)")
      case True
      then obtain x where k: "k = JStr x" and x: "x \<in> set (dsm_pool s)"
        by (rule key_in_poolE)
      with dsm Some True assms have "s' = ask_item x s" by (simp add: apply_decision_def)
      with x show ?thesis by auto
    next
      case False
      show ?thesis
      proof (cases "dsm_pool s")
        case Nil
        with dsm Some False assms show ?thesis by (simp add: apply_decision_def)
      next
        case (Cons x xs)
        with dsm Some False assms
        have "s' = ask_item x (s\<lparr>var_dsm_symptom_key := Some (JStr x)\<rparr>)"
          by (simp add: apply_decision_def)
        with Cons show ?thesis by auto
      qed
    qed
  qed
qed

lemma apply_decision_pending:
  assumes "var_dsm_symptom_key s = Some (JStr x)" and "x \<in> set (dsm_pool s)"
  shows "apply_decision (JStr ''DSM'') i s = Inr (i, ask_item x s)"
  using assms by (simp add: apply_decision_def key_in_pool_def)


lemma doctor_manager_step_forced:
  assumes "doctor_manager_step rt ag s = Inr (Move na i s1)"
    and "dsm_pool s = x # xs"
    and "max_doctor_turns (budget s) - doctor_turns_elapsed s \<le> length (dsm_pool s)"
  shows "na = JStr ''DSM'' \<and> var_dsm_symptom_key s1 = Some (JStr x)"
  using assms
  by (auto simp: doctor_manager_step_def Let_def then_do_eq_Inr
      split: if_splits prod.splits)

lemma distinct_ask:
  assumes "distinct (a @ p)" and "x \<in> set p"
  shows "distinct ((a @ [x]) @ remove1 x p)" and "set (a @ [x]) \<union> set (remove1 x p) = set a \<union> set p"
    and "Suc (length (remove1 x p)) = length p"
  using assms by (auto simp: length_remove1 dest: in_set_remove1 notin_set_remove1 length_pos_if_in_set)

lemma loop_body_coverage_inv:
  assumes body: "loop_body rt ag vs s = Inr (Continue s')"
    and inv: "coverage_inv s"
    and enter: "doctor_turns_elapsed s < max_doctor_turns (budget s)"
  shows "coverage_inv s'"
proof -
  from body obtain na i s1 i' s3 reply where
    1: "doctor_manager_step rt ag s = Inr (Move na i s1)" and
    2: "apply_decision na i (s1\<lparr>doctor_turns_elapsed := doctor_turns_elapsed s1 + 1\<rparr>) = Inr (i', s3)" and
    4: "patient_turn rt ag vs (doctor_turns_elapsed s1 + 1) (doctor_turns_elapsed s1 + 1) na True
       (s3\<lparr>conversation_history := conversation_history s3 @ [(''assistant'', reply)]\<rparr>) = Inr s'"
    by (rule loop_body_ContinueE)
  let ?s2 = "s1\<lparr>doctor_turns_elapsed := doctor_turns_elapsed s1 + 1\<rparr>"
  note f1 = doctor_manager_step_Move [OF 1]
  note f2 = apply_decision_frame [OF 2]
  note f4 = patient_turn_frame [OF 4]
  have el: "doctor_turns_elapsed s' = doctor_turns_elapsed s + 1" and bu: "budget s' = budget s"
    using f1 f2 f4 by simp_all
  have po: "dsm_pool s' = dsm_pool s3" and as: "asked_question_order s' = asked_question_order s3"
    using f4 by simp_all
  have p2: "dsm_pool ?s2 = dsm_pool s" and a2: "asked_question_order ?s2 = asked_question_order s"
    using f1 by simp_all
  from inv have d: "distinct (asked_question_order s @ dsm_pool s)"
    and u: "set (asked_question_order s) \<union> set (dsm_pool s) = set DSM_ITEMS"
    and b: "doctor_turns_elapsed s + length (dsm_pool s) \<le> max_doctor_turns (budget s)"
    by (simp_all add: coverage_inv_def)
  show ?thesis
  proof (cases "max_doctor_turns (budget s) - doctor_turns_elapsed s \<le> length (dsm_pool s)
      \<and> dsm_pool s \<noteq> []")
    case True
    then obtain x xs where px: "dsm_pool s = x # xs" by (cases "dsm_pool s") auto
    from doctor_manager_step_forced [OF 1 px] True
    have na: "na = JStr ''DSM''" and v: "var_dsm_symptom_key s1 = Some (JStr x)" by simp_all
    have "apply_decision (JStr ''DSM'') i ?s2 = Inr (i, ask_item x ?s2)"
      by (rule apply_decision_pending) (use v px p2 in simp_all)
    with 2 na have s3: "s3 = ask_item x ?s2" by simp
    have xin: "x \<in> set (dsm_pool s)" using px by simp
    from s3 p2 a2 po as have po': "dsm_pool s' = remove1 x (dsm_pool s)"
      and as': "asked_question_order s' = asked_question_order s @ [x]" by simp_all
    show ?thesis
      unfolding coverage_inv_def po' as' el bu
      using distinct_ask [OF d xin] u b by simp
  next
    case False
    then have slack: "dsm_pool s = [] \<or> doctor_turns_elapsed s + length (dsm_pool s) < max_doctor_turns (budget s)"
      using enter by auto
    from apply_decision_cases [OF 2] show ?thesis
    proof
      assume "dsm_pool s3 = dsm_pool ?s2 \<and> asked_question_order s3 = asked_question_order ?s2"
      then have "dsm_pool s' = dsm_pool s" "asked_question_order s' = asked_question_order s"
        using po as p2 a2 by simp_all
      then show ?thesis
        unfolding coverage_inv_def el bu using d u slack enter by auto
    next
      assume "\<exists>x\<in>set (dsm_pool ?s2). dsm_pool s3 = remove1 x (dsm_pool ?s2) \<and>
            asked_question_order s3 = asked_question_order ?s2 @ [x]"
      then obtain x where xin: "x \<in> set (dsm_pool s)"
        and po': "dsm_pool s' = remove1 x (dsm_pool s)"
        and as': "asked_question_order s' = asked_question_order s @ [x]"
        using po as p2 a2 by auto
      show ?thesis
        unfolding coverage_inv_def po' as' el bu
        using distinct_ask [OF d xin] u b by simp
    qed
  qed
qed

lemma dialogue_loop_coverage:
  assumes "dialogue_loop rt ag vs s = Inr s'" and "coverage_inv s"
  shows "coverage_inv s' \<and> dsm_pool s' = []"
  using assms
proof (induction rt ag vs s rule: dialogue_loop.induct)
  case (1 rt ag vs s)
  show ?case
  proof (cases "doctor_turns_elapsed s < max_doctor_turns (budget s)")
    case False
    with "1.prems" have "s' = s" by (simp add: dialogue_loop.simps)
    moreover from "1.prems"(2)
    have "doctor_turns_elapsed s + length (dsm_pool s) \<le> max_doctor_turns (budget s)"
      by (simp add: coverage_inv_def)
    with False have "length (dsm_pool s) = 0" by arith
    then have "dsm_pool s = []" by simp
    ultimately show ?thesis using "1.prems"(2) by simp
  next
    case True
    show ?thesis
    proof (cases "loop_body rt ag vs s")
      case (Inl e)
      with True "1.prems" show ?thesis by (simp add: dialogue_loop.simps)
    next
      case (Inr sig)
      show ?thesis
      proof (cases sig)
        case (Break s1)
        with Inr True "1.prems" have "s' = s1" by (simp add: dialogue_loop.simps)
        moreover from Inr Break have "loop_body rt ag vs s = Inr (Break s1)" by simp
        note loop_body_Break [OF this]
        ultimately show ?thesis using "1.prems"(2) by (simp add: coverage_inv_def)
      next
        case (Continue s1)
        with Inr have lb: "loop_body rt ag vs s = Inr (Continue s1)" by simp
        with True "1.prems" have "dialogue_loop rt ag vs s1 = Inr s'"
          by (simp add: dialogue_loop.simps)
        moreover have "coverage_inv s1"
          by (rule loop_body_coverage_inv [OF lb "1.prems"(2) True])
        ultimately show ?thesis using "1.IH" [OF True Inr Continue] by simp
      qed
    qed
  qed
qed

subsection \<open>Runs that complete\<close>

text \<open>
  A manager text is usable when it is not JSON at all (the parsers fall back) or is a
  JSON object whose \<open>doctor_instruction\<close>, if truthy, is a string; a patient-manager
  text when it is not JSON or is a JSON object. Other texts make the parsers raise
  \<^verbatim>\<open>AttributeError\<close>.
\<close>

definition usable_decision :: "runtime \<Rightarrow> string \<Rightarrow> bool" where
  "usable_decision rt out =
     (case json_loads rt (strip_code_fences out) of
        None \<Rightarrow> True
      | Some (JObj d) \<Rightarrow>
          (case dict_get d ''doctor_instruction'' (JStr []) of
             JStr _ \<Rightarrow> True
           | v \<Rightarrow> \<not> truthy v)
      | Some _ \<Rightarrow> False)"

definition usable_guidance :: "runtime \<Rightarrow> string \<Rightarrow> bool" where
  "usable_guidance rt out =
     (case json_loads rt (strip_code_fences out) of
        None \<Rightarrow> True
      | Some (JObj d) \<Rightarrow> True
      | Some _ \<Rightarrow> False)"

definition usable_agents :: "runtime \<Rightarrow> agents \<Rightarrow> bool" where
  "usable_agents rt ag \<longleftrightarrow>
     (\<forall>n. \<exists>out. doctor_manager_agent ag n = Some out \<and> usable_decision rt out) \<and>
     (\<forall>n. \<exists>out. patient_manager_agent ag n = Some out \<and> usable_guidance rt out) \<and>
     (\<forall>n. doctor_agent ag n \<noteq> None) \<and>
     (\<forall>n. patient_agent ag n \<noteq> None)"

definition key_bound :: "session_state \<Rightarrow> bool" where
  "key_bound s \<longleftrightarrow> (dsm_pool s = [] \<longrightarrow> (\<exists>x. var_dsm_symptom_key s = Some (JStr x)))"

lemma usable_instruction:
  assumes "case v of JStr _ \<Rightarrow> True | w \<Rightarrow> \<not> truthy w"
  shows "\<exists>di. (if truthy v then v else JStr []) = JStr di"
  using assms by (cases v) auto

lemma parse_doctor_manager_output_usable:
  assumes "usable_decision rt out" and "pool \<noteq> []"
  shows "\<exists>d g'. parse_doctor_manager_output rt out pool g = Inr (d, g')"
proof (cases "json_loads rt (strip_code_fences out)")
  case None
  with assms(2) show ?thesis
    by (simp add: parse_doctor_manager_output_def rng_choice_def split: prod.splits)
next
  case (Some v)
  with assms(1) obtain d where v: "v = JObj d"
    and u: "case dict_get d ''doctor_instruction'' (JStr []) of JStr _ \<Rightarrow> True | w \<Rightarrow> \<not> truthy w"
    by (cases v) (simp_all add: usable_decision_def)
  from usable_instruction [OF u] obtain di where
    "(if truthy (dict_get d ''doctor_instruction'' (JStr []))
      then dict_get d ''doctor_instruction'' (JStr []) else JStr []) = JStr di" ..
  with Some v show ?thesis
    by (simp add: parse_doctor_manager_output_def Let_def)
qed

lemma parse_post_dsm_manager_output_usable:
  assumes "usable_decision rt out"
  shows "\<exists>d. parse_post_dsm_manager_output rt out = Inr d"
proof (cases "json_loads rt (strip_code_fences out)")
  case None
  then show ?thesis by (simp add: parse_post_dsm_manager_output_def)
next
  case (Some v)
  with assms(1) obtain d where v: "v = JObj d"
    and u: "case dict_get d ''doctor_instruction'' (JStr []) of JStr _ \<Rightarrow> True | w \<Rightarrow> \<not> truthy w"
    by (cases v) (simp_all add: usable_decision_def)
  from usable_instruction [OF u] obtain di where
    "(if truthy (dict_get d ''doctor_instruction'' (JStr []))
      then dict_get d ''doctor_instruction'' (JStr []) else JStr []) = JStr di" ..
  with Some v show ?thesis
    by (simp add: parse_post_dsm_manager_output_def Let_def)
qed

lemma parse_patient_manager_output_usable:
  assumes "usable_guidance rt out"
  shows "\<exists>g. parse_patient_manager_output rt out vs cur = Inr g"
proof (cases "json_loads rt (strip_code_fences out)")
  case None
  then show ?thesis by (simp add: parse_patient_manager_output_def Let_def)
next
  case (Some v)
  with assms obtain d where "v = JObj d"
    by (cases v) (simp_all add: usable_guidance_def)
  with Some show ?thesis by (simp add: parse_patient_manager_output_def Let_def)
qed

text \<open>The manager step returns, and a move it returns has its key bound unless the pool was empty.\<close>

lemma doctor_manager_step_usable:
  assumes "usable_agents rt ag"
  shows "\<exists>outcome. doctor_manager_step rt ag s = Inr outcome"
proof -
  from assms obtain out where c: "call (doctor_manager_agent ag) (doctor_turns_elapsed s) = Inr out"
    and u: "usable_decision rt out"
    unfolding usable_agents_def call_def by (metis option.simps(5))
  show ?thesis
  proof (cases "dsm_pool s")
    case Nil
    from parse_post_dsm_manager_output_usable [OF u] obtain d where
      "parse_post_dsm_manager_output rt out = Inr d" ..
    with Nil c show ?thesis by (simp add: doctor_manager_step_def Let_def)
  next
    case (Cons x xs)
    then have "dsm_pool s \<noteq> []" by simp
    from parse_doctor_manager_output_usable [OF u this] obtain d g' where
      "parse_doctor_manager_output rt out (dsm_pool s) (module_random s) = Inr (d, g')" by blast
    with Cons c show ?thesis by (simp add: doctor_manager_step_def Let_def)
  qed
qed

lemma doctor_manager_step_key:
  assumes "doctor_manager_step rt ag s = Inr (Move na i s1)"
  shows "if dsm_pool s = [] then var_dsm_symptom_key s1 = var_dsm_symptom_key s
         else var_dsm_symptom_key s1 \<noteq> None"
  using assms
  by (auto simp: doctor_manager_step_def Let_def then_do_eq_Inr
      split: if_splits list.splits prod.splits)

lemma apply_decision_result:
  assumes "apply_decision na i s = Inr (i', s')"
  shows "s' = s \<and> (na = JStr ''DSM'' \<longrightarrow> dsm_pool s = []) \<or>
         (\<exists>x \<in> set (dsm_pool s). na = JStr ''DSM'' \<and>
            s' = ask_item x (s\<lparr>var_dsm_symptom_key := Some (JStr x)\<rparr>))"
proof (cases "na = JStr ''DSM''")
  case False
  with assms show ?thesis by (simp add: apply_decision_def)
next
  case dsm: True
  show ?thesis
  proof (cases "var_dsm_symptom_key s")
    case None
    with dsm assms show ?thesis by (simp add: apply_decision_def)
  next
    case (Some k)
    show ?thesis
    proof (cases "key_in_pool k (dsm_pool s)")
      case True
      then obtain x where k: "k = JStr x" and x: "x \<in> set (dsm_pool s)"
        by (rule key_in_poolE)
      with dsm Some True assms have "s' = ask_item x s" by (simp add: apply_decision_def)
      moreover from Some k have "s\<lparr>var_dsm_symptom_key := Some (JStr x)\<rparr> = s" by simp
      ultimately have "s' = ask_item x (s\<lparr>var_dsm_symptom_key := Some (JStr x)\<rparr>)" by simp
      with x dsm show ?thesis by blast
    next
      case False
      show ?thesis
      proof (cases "dsm_pool s")
        case Nil
        with dsm Some False assms show ?thesis by (simp add: apply_decision_def)
      next
        case (Cons x xs)
        with dsm Some False assms
        have "s' = ask_item x (s\<lparr>var_dsm_symptom_key := Some (JStr x)\<rparr>)"
          by (simp add: apply_decision_def)
        moreover from Cons have "x \<in> set (dsm_pool s)" by simp
        ultimately show ?thesis using dsm by blast
      qed
    qed
  qed
qed

lemma apply_decision_returns:
  assumes "var_dsm_symptom_key s \<noteq> None"
  shows "\<exists>r. apply_decision na i s = Inr r"
  using assms
  by (cases "var_dsm_symptom_key s"; cases "dsm_pool s")
     (auto simp: apply_decision_def key_in_pool_def split: json.splits)

lemma ground_truth_check_bound:
  assumes "var_dsm_symptom_key s = Some (JStr x)"
  shows "ground_truth_check mv s = Inr ()"
  using assms by (simp add: ground_truth_check_def)

lemma ground_truth_check_other:
  assumes "mv \<noteq> JStr ''DSM''"
  shows "ground_truth_check mv s = Inr ()"
  using assms by (simp add: ground_truth_check_def)

lemma patient_turn_usable:
  assumes "usable_agents rt ag"
    and "\<not> in_loop \<or> mv \<noteq> JStr ''DSM'' \<or> (\<exists>x. var_dsm_symptom_key s = Some (JStr x))"
  shows "\<exists>s'. patient_turn rt ag vs idx t mv in_loop s = Inr s'"
proof -
  from assms(1) obtain out where c: "call (patient_manager_agent ag) idx = Inr out"
    and u: "usable_guidance rt out"
    unfolding usable_agents_def call_def by (metis option.simps(5))
  from parse_patient_manager_output_usable [OF u] obtain g where
    p: "parse_patient_manager_output rt out vs (disclosure_state s) = Inr g" ..
  from assms(2) have gt: "(if in_loop then ground_truth_check mv s else Inr ()) = Inr ()"
    by (auto simp: ground_truth_check_bound ground_truth_check_other)
  from assms(1) obtain reply where r: "call (patient_agent ag) idx = Inr reply"
    unfolding usable_agents_def call_def by (metis not_None_eq option.simps(5))
  from c p gt r show ?thesis by (simp add: patient_turn_def)
qed

lemma loop_body_usable:
  assumes ua: "usable_agents rt ag" and kb: "key_bound s"
  shows "\<exists>sig. loop_body rt ag vs s = Inr sig"
proof -
  from doctor_manager_step_usable [OF ua] obtain outcome where
    o: "doctor_manager_step rt ag s = Inr outcome" ..
  show ?thesis
  proof (cases outcome)
    case (End s1)
    with o show ?thesis by (simp add: loop_body_def)
  next
    case (Move na i s1)
    let ?s2 = "s1\<lparr>doctor_turns_elapsed := doctor_turns_elapsed s1 + 1\<rparr>"
    from o Move have m: "doctor_manager_step rt ag s = Inr (Move na i s1)" by simp
    note f1 = doctor_manager_step_Move [OF m]
    from doctor_manager_step_key [OF m] kb
    have v2: "var_dsm_symptom_key ?s2 \<noteq> None"
      and v2': "dsm_pool s = [] \<longrightarrow> (\<exists>x. var_dsm_symptom_key ?s2 = Some (JStr x))"
      by (auto simp: key_bound_def split: if_splits)
    from apply_decision_returns [OF v2] obtain i' s3 where
      a: "apply_decision na i ?s2 = Inr (i', s3)" by fastforce
    from ua obtain reply where r: "call (doctor_agent ag) (doctor_turns_elapsed s1) = Inr reply"
      unfolding usable_agents_def call_def by (metis not_None_eq option.simps(5))
    let ?s4 = "s3\<lparr>conversation_history := conversation_history s3 @ [(''assistant'', reply)]\<rparr>"
    have "na \<noteq> JStr ''DSM'' \<or> (\<exists>x. var_dsm_symptom_key ?s4 = Some (JStr x))"
    proof (cases "na = JStr ''DSM''")
      case False
      then show ?thesis by simp
    next
      case True
      from apply_decision_result [OF a] show ?thesis
      proof
        assume "s3 = ?s2 \<and> (na = JStr ''DSM'' \<longrightarrow> dsm_pool ?s2 = [])"
        with True f1 v2' show ?thesis by simp
      next
        assume "\<exists>x\<in>set (dsm_pool ?s2). na = JStr ''DSM'' \<and>
            s3 = ask_item x (?s2\<lparr>var_dsm_symptom_key := Some (JStr x)\<rparr>)"
        then show ?thesis by (auto simp: ask_item_def)
      qed
    qed
    then have "\<not> True \<or> na \<noteq> JStr ''DSM'' \<or> (\<exists>x. var_dsm_symptom_key ?s4 = Some (JStr x))"
      by simp
    from patient_turn_usable [OF ua this] obtain s5 where
      "patient_turn rt ag vs (doctor_turns_elapsed s1 + 1) (doctor_turns_elapsed s1 + 1) na True ?s4
         = Inr s5" by blast
    with o Move a r show ?thesis by (simp add: loop_body_def Let_def)
  qed
qed

lemma loop_body_key_bound:
  assumes body: "loop_body rt ag vs s = Inr (Continue s')" and kb: "key_bound s"
  shows "key_bound s'"
proof -
  from body obtain na i s1 i' s3 reply where
    1: "doctor_manager_step rt ag s = Inr (Move na i s1)" and
    2: "apply_decision na i (s1\<lparr>doctor_turns_elapsed := doctor_turns_elapsed s1 + 1\<rparr>) = Inr (i', s3)" and
    4: "patient_turn rt ag vs (doctor_turns_elapsed s1 + 1) (doctor_turns_elapsed s1 + 1) na True
       (s3\<lparr>conversation_history := conversation_history s3 @ [(''assistant'', reply)]\<rparr>) = Inr s'"
    by (rule loop_body_ContinueE)
  let ?s2 = "s1\<lparr>doctor_turns_elapsed := doctor_turns_elapsed s1 + 1\<rparr>"
  note f1 = doctor_manager_step_Move [OF 1]
  note k1 = doctor_manager_step_key [OF 1]
  note f4 = patient_turn_frame [OF 4]
  from apply_decision_result [OF 2] have "key_bound s3"
  proof
    assume a: "s3 = ?s2 \<and> (na = JStr ''DSM'' \<longrightarrow> dsm_pool ?s2 = [])"
    show ?thesis
    proof (cases "dsm_pool s = []")
      case True
      with k1 kb a f1 show ?thesis by (simp add: key_bound_def)
    next
      case False
      with a f1 show ?thesis by (simp add: key_bound_def)
    qed
  next
    assume "\<exists>x\<in>set (dsm_pool ?s2). na = JStr ''DSM'' \<and>
        s3 = ask_item x (?s2\<lparr>var_dsm_symptom_key := Some (JStr x)\<rparr>)"
    then show ?thesis by (auto simp: key_bound_def ask_item_def)
  qed
  with f4 show ?thesis by (simp add: key_bound_def)
qed

lemma dialogue_loop_usable:
  assumes "usable_agents rt ag" and "key_bound s"
  shows "\<exists>s'. dialogue_loop rt ag vs s = Inr s'"
  using assms
proof (induction rt ag vs s rule: dialogue_loop.induct)
  case (1 rt ag vs s)
  show ?case
  proof (cases "doctor_turns_elapsed s < max_doctor_turns (budget s)")
    case False
    then show ?thesis by (simp add: dialogue_loop.simps)
  next
    case True
    from loop_body_usable [OF "1.prems"] obtain sig where
      b: "loop_body rt ag vs s = Inr sig" ..
    show ?thesis
    proof (cases sig)
      case (Break s1)
      with b True show ?thesis by (simp add: dialogue_loop.simps)
    next
      case (Continue s1)
      with b have "key_bound s1" using loop_body_key_bound "1.prems"(2) by blast
      from "1.IH" [OF True b Continue "1.prems"(1) this] b Continue True
      show ?thesis by (simp add: dialogue_loop.simps)
    qed
  qed
qed

subsection \<open>Sample inputs\<close>

text \<open>
  The texts the examples feed to \<^verbatim>\<open>json.loads\<close>, with the values it gives for
  them: the two decision texts are JSON objects, \<open>''not json''\<close> is not JSON.
\<close>

definition sample_decision_text :: string where
  "sample_decision_text =
     ''{\"next_action\": \"FOLLOW_UP\", \"reason\": \"The patient hinted at more.\", \"doctor_instruction\": \"Ask what a typical day looks like.\", \"dsm_symptom_key\": \"\"}''"

definition sample_decision :: "(string \<times> json) list" where
  "sample_decision =
     [(''next_action'', JStr ''FOLLOW_UP''),
      (''reason'', JStr ''The patient hinted at more.''),
      (''doctor_instruction'', JStr ''Ask what a typical day looks like.''),
      (''dsm_symptom_key'', JStr [])]"

definition stale_decision_text :: string where
  "stale_decision_text =
     ''{\"next_action\": \"DSM\", \"reason\": \"Mood comes first.\", \"doctor_instruction\": \"Ask about low mood.\", \"dsm_symptom_key\": \"Depressed mood\"}''"

definition stale_decision :: "(string \<times> json) list" where
  "stale_decision =
     [(''next_action'', JStr ''DSM''),
      (''reason'', JStr ''Mood comes first.''),
      (''doctor_instruction'', JStr ''Ask about low mood.''),
      (''dsm_symptom_key'', JStr ''Depressed mood'')]"

definition sample_runtime :: runtime where
  "sample_runtime =
     \<lparr>json_loads = (\<lambda>s. if s = sample_decision_text then Some (JObj sample_decision)
                          else if s = stale_decision_text then Some (JObj stale_decision)
                          else None),
      py_str = (\<lambda>v. ''?'')\<rparr>"

definition follow_up_agents :: agents where
  "follow_up_agents =
     \<lparr>doctor_manager_agent = (\<lambda>n. Some sample_decision_text),
      doctor_agent = (\<lambda>n. Some ''Tell me more about that.''),
      patient_manager_agent = (\<lambda>n. Some ''not json''),
      patient_agent = (\<lambda>n. Some ''I am fine.'')\<rparr>"

definition malformed_agents :: agents where
  "malformed_agents =
     \<lparr>doctor_manager_agent = (\<lambda>n. Some ''not json''),
      doctor_agent = (\<lambda>n. Some ''Tell me more about that.''),
      patient_manager_agent = (\<lambda>n. Some ''not json''),
      patient_agent = (\<lambda>n. Some ''I am fine.'')\<rparr>"


definition sample_personality :: personality where
  "sample_personality =
     \<lparr>BIG5_TEMPLATE = ''OPENNESS_LOW'',
      AFFECTIVE_STYLE = ''Constricted affect, limited emotional vocabulary'',
      COGNITIVE_STYLE = ''Literal thinking, low insight, denies mood distress'',
      SOMATIC_STYLE = ''Body-focused complaints (aches, tiredness, sleep/appetite issues)'',
      SPECIFIER_HINT = ''Somatic-dominant style'',
      MODIFIERS = [''literal-thinking''],
      PACING = ''MED'',
      CONTEXT_DOMAINS = [''health concern''],
      EPISODE_DENSITY = ''LOW'',
      VOICE_STYLE = [(''verbosity'', ''moderate''), (''expressiveness'', ''flat''),
                     (''trust'', ''neutral''), (''intellect'', ''moderate-functioning''),
                     (''humor'', ''none'')],
      PERSONAL_BACKGROUND = [(''living_situation'', ''alone''), (''work_role'', ''employed'')],
      AGE_RANGE = ''40-49'',
      EMPH_INTENSITY = [(''Significant weight/appetite changes'', ''MED''),
                        (''Sleep disturbances'', ''MED''),
                        (''Fatigue or loss of energy'', ''LOW'')],
      EXTRA_ELEVATED_SYMPTOMS = []\<rparr>"

definition sample_microstyle :: "(string \<times> string) list" where
  "sample_microstyle =
     [(''warmth'', ''med''), (''directness'', ''med''), (''pacing'', ''med''),
      (''humor'', ''none''), (''animation'', ''med'')]"

definition sample_persona :: doctor_persona where
  "sample_persona =
     \<lparr>persona_id = ''neutral_efficient'',
      first_greeting = ''Hello, what brings you in today?'',
      system_prompt = []\<rparr>"

definition sample_rng :: rng_state where
  "sample_rng = \<lparr>draws = (\<lambda>n. 7 * n + 3), pos = 0\<rparr>"

definition sample_start :: session_state where
  "sample_start = initial_state sample_personality sample_microstyle sample_persona sample_rng"

lemma strip_sample_decision_text:
  "strip_code_fences sample_decision_text = sample_decision_text"
  by code_simp

lemma strip_not_json:
  "strip_code_fences ''not json'' = ''not json''"
  by code_simp

lemma strip_stale_decision_text:
  "strip_code_fences stale_decision_text = stale_decision_text"
  by code_simp

lemma sample_texts_differ:
  "''not json'' \<noteq> sample_decision_text"
  "''not json'' \<noteq> stale_decision_text"
  "stale_decision_text \<noteq> sample_decision_text"
  by (simp_all add: sample_decision_text_def stale_decision_text_def)

lemma sample_json_loads:
  "json_loads sample_runtime (strip_code_fences sample_decision_text) = Some (JObj sample_decision)"
  "json_loads sample_runtime (strip_code_fences stale_decision_text) = Some (JObj stale_decision)"
  "json_loads sample_runtime (strip_code_fences ''not json'') = None"
  by (simp_all add: sample_runtime_def strip_sample_decision_text strip_stale_decision_text
      strip_not_json sample_texts_differ)

lemma usable_sample_texts:
  "usable_decision sample_runtime sample_decision_text"
  "usable_decision sample_runtime stale_decision_text"
  "usable_decision sample_runtime ''not json''"
  "usable_guidance sample_runtime ''not json''"
  by (simp_all add: usable_decision_def usable_guidance_def sample_json_loads
      sample_decision_def stale_decision_def dict_get_def)

lemma usable_follow_up_agents:
  "usable_agents sample_runtime follow_up_agents"
  by (simp add: usable_agents_def follow_up_agents_def usable_sample_texts)

lemma usable_malformed_agents:
  "usable_agents sample_runtime malformed_agents"
  by (simp add: usable_agents_def malformed_agents_def usable_sample_texts)


lemma sample_start_fields:
  "dsm_pool sample_start = DSM_ITEMS"
  "asked_question_order sample_start = []"
  "doctor_turns_elapsed sample_start = 0"
  "var_dsm_symptom_key sample_start = None"
  "disclosure_state sample_start = JStr ''PARTIAL''"
  "budget sample_start =
     \<lparr>target_turns_per_symptom = 2, base_turn_budget = 18, max_doctor_turns = 24,
      dsm_turn_budget = 18\<rparr>"
  by (simp_all add: sample_start_def initial_state_def sample_microstyle_def sample_persona_def
      sample_personality_def init_disclosure_state_def compute_turn_budget_def dict_get_def
      PACING_TARGETS_def EXTENDED_PACING_PERSONAS_def NUM_DSM_ITEMS_def BUFFER_TURNS_def)

lemma key_bound_sample_start:
  "key_bound sample_start"
  by (simp add: key_bound_def sample_start_fields DSM_ITEMS_def)

text \<open>
  Claim C1. DSM coverage guarantee: for every turn limit of at least 9 + buffer and
  every sequence of manager, doctor and patient outputs, a run of the dialogue loop
  from the start of a session (all nine items pending, none asked, no turn elapsed)
  that completes ends with \<open>asked_question_order\<close> holding each of the nine DSM
  items exactly once and with an empty pool.
\<close>

theorem dsm_coverage_guarantee:
  assumes "NUM_DSM_ITEMS + BUFFER_TURNS \<le> max_doctor_turns (budget s0)"
    and "dsm_pool s0 = DSM_ITEMS"
    and "asked_question_order s0 = []"
    and "doctor_turns_elapsed s0 = 0"
    and "dialogue_loop rt ag vs s0 = Inr s"
  shows "distinct (asked_question_order s) \<and>
         set (asked_question_order s) = set DSM_ITEMS \<and>
         length (asked_question_order s) = 9 \<and>
         dsm_pool s = []"
proof -
  have dist: "distinct DSM_ITEMS" by (simp add: DSM_ITEMS_def)
  have len: "length DSM_ITEMS = 9" by (simp add: DSM_ITEMS_def)
  have "coverage_inv s0"
    using assms(1-4) dist len by (simp add: coverage_inv_def NUM_DSM_ITEMS_def BUFFER_TURNS_def)
  from dialogue_loop_coverage [OF assms(5) this]
  have inv: "coverage_inv s" and e: "dsm_pool s = []" by simp_all
  then have d: "distinct (asked_question_order s)"
    and u: "set (asked_question_order s) = set DSM_ITEMS"
    by (simp_all add: coverage_inv_def)
  from d u dist have "length (asked_question_order s) = length DSM_ITEMS"
    by (metis distinct_card)
  with d u e len show ?thesis by simp
qed

text \<open>
  A run the theorem applies to: the doctor manager answers FOLLOW\_UP at every turn, so
  the nine items can only be asked by the force-coverage branch.
\<close>

theorem dsm_coverage_guarantee_witness:
  "NUM_DSM_ITEMS + BUFFER_TURNS \<le> max_doctor_turns (budget sample_start) \<and>
   dsm_pool sample_start = DSM_ITEMS \<and>
   asked_question_order sample_start = [] \<and>
   doctor_turns_elapsed sample_start = 0 \<and>
   (\<exists>s. dialogue_loop sample_runtime follow_up_agents (VOICE_STYLE sample_personality)
          sample_start = Inr s \<and>
        distinct (asked_question_order s) \<and>
        set (asked_question_order s) = set DSM_ITEMS \<and>
        length (asked_question_order s) = 9 \<and>
        dsm_pool s = [])"
proof -
  have 1: "NUM_DSM_ITEMS + BUFFER_TURNS \<le> max_doctor_turns (budget sample_start)"
    by (simp add: sample_start_fields NUM_DSM_ITEMS_def BUFFER_TURNS_def)
  note 2 = sample_start_fields(1) and 3 = sample_start_fields(2) and 4 = sample_start_fields(3)
  from dialogue_loop_usable [OF usable_follow_up_agents key_bound_sample_start]
  obtain s where
    5: "dialogue_loop sample_runtime follow_up_agents (VOICE_STYLE sample_personality)
          sample_start = Inr s"
    by blast
  from dsm_coverage_guarantee [OF 1 2 3 4 5] 1 2 3 4 5 show ?thesis by blast
qed

section \<open>Mode selection\<close>

fun outcome_state :: "turn_outcome \<Rightarrow> session_state" where
  "outcome_state (End s) = s"
| "outcome_state (Move na i s) = s"

fun signal_state :: "loop_signal \<Rightarrow> session_state" where
  "signal_state (Break s) = s"
| "signal_state (Continue s) = s"

lemma doctor_manager_step_log:
  assumes "doctor_manager_step rt ag s = Inr outcome"
  shows "\<exists>e. doctor_manager_decisions (outcome_state outcome) = doctor_manager_decisions s @ [e] \<and>
           manager_type e =
             (if dsm_pool s = [] then ''post_dsm''
              else if max_doctor_turns (budget s) - doctor_turns_elapsed s \<le> length (dsm_pool s)
                then ''forced_dsm_coverage''
              else if (of_nat (dsm_turn_budget (budget s) - doctor_turns_elapsed s) :: rat)
                        / of_nat (length (dsm_pool s)) < target_turns_per_symptom (budget s)
                then ''low_turns''
              else ''normal'')"
proof (cases "dsm_pool s = []")
  case True
  with assms show ?thesis
    by (auto simp: doctor_manager_step_def Let_def then_do_eq_Inr split: if_splits)
next
  case False
  then obtain x xs where p: "dsm_pool s = x # xs" by (cases "dsm_pool s") auto
  show ?thesis
  proof (cases "max_doctor_turns (budget s) - doctor_turns_elapsed s \<le> length (dsm_pool s)")
    case True
    with assms p show ?thesis
      by (auto simp: doctor_manager_step_def Let_def then_do_eq_Inr split: prod.splits)
  next
    case False
    with assms p show ?thesis
      by (auto simp: doctor_manager_step_def Let_def then_do_eq_Inr split: prod.splits)
  qed
qed

lemma apply_decision_log:
  assumes "apply_decision na i s = Inr (i', s')"
  shows "doctor_manager_decisions s' = doctor_manager_decisions s"
  using apply_decision_result [OF assms] by (auto simp: ask_item_def)

lemma patient_turn_log:
  assumes "patient_turn rt ag vs idx t mv b s = Inr s'"
  shows "doctor_manager_decisions s' = doctor_manager_decisions s"
  using assms by (auto simp: patient_turn_def then_do_eq_Inr)

lemma loop_body_log:
  assumes "loop_body rt ag vs s = Inr sig"
  shows "\<exists>outcome. doctor_manager_step rt ag s = Inr outcome \<and>
           doctor_manager_decisions (signal_state sig) = doctor_manager_decisions (outcome_state outcome)"
proof (cases sig)
  case (Break s')
  with assms have "doctor_manager_step rt ag s = Inr (End s')" by (simp add: loop_body_BreakD)
  with Break show ?thesis by simp
next
  case (Continue s')
  with assms have "loop_body rt ag vs s = Inr (Continue s')" by simp
  then obtain na i s1 i' s3 reply where
    1: "doctor_manager_step rt ag s = Inr (Move na i s1)" and
    2: "apply_decision na i (s1\<lparr>doctor_turns_elapsed := doctor_turns_elapsed s1 + 1\<rparr>) = Inr (i', s3)" and
    4: "patient_turn rt ag vs (doctor_turns_elapsed s1 + 1) (doctor_turns_elapsed s1 + 1) na True
       (s3\<lparr>conversation_history := conversation_history s3 @ [(''assistant'', reply)]\<rparr>) = Inr s'"
    by (rule loop_body_ContinueE)
  from apply_decision_log [OF 2] patient_turn_log [OF 4]
  have "doctor_manager_decisions s' = doctor_manager_decisions s1" by simp
  with 1 Continue show ?thesis by simp
qed

lemma loop_body_forced:
  assumes body: "loop_body rt ag vs s = Inr sig"
    and p: "dsm_pool s = x # xs"
    and f: "max_doctor_turns (budget s) - doctor_turns_elapsed s \<le> length (dsm_pool s)"
  shows "asked_question_order (signal_state sig) = asked_question_order s @ [x] \<and>
         dsm_pool (signal_state sig) = xs"
proof (cases sig)
  case (Break s')
  with body have "dsm_pool s = []" using loop_body_Break by blast
  with p show ?thesis by simp
next
  case (Continue s')
  with body have "loop_body rt ag vs s = Inr (Continue s')" by simp
  then obtain na i s1 i' s3 reply where
    1: "doctor_manager_step rt ag s = Inr (Move na i s1)" and
    2: "apply_decision na i (s1\<lparr>doctor_turns_elapsed := doctor_turns_elapsed s1 + 1\<rparr>) = Inr (i', s3)" and
    4: "patient_turn rt ag vs (doctor_turns_elapsed s1 + 1) (doctor_turns_elapsed s1 + 1) na True
       (s3\<lparr>conversation_history := conversation_history s3 @ [(''assistant'', reply)]\<rparr>) = Inr s'"
    by (rule loop_body_ContinueE)
  let ?s2 = "s1\<lparr>doctor_turns_elapsed := doctor_turns_elapsed s1 + 1\<rparr>"
  note f1 = doctor_manager_step_Move [OF 1]
  note f4 = patient_turn_frame [OF 4]
  from doctor_manager_step_forced [OF 1 p f]
  have na: "na = JStr ''DSM''" and v: "var_dsm_symptom_key s1 = Some (JStr x)" by simp_all
  have "apply_decision (JStr ''DSM'') i ?s2 = Inr (i, ask_item x ?s2)"
    by (rule apply_decision_pending) (use v p f1 in simp_all)
  with 2 na have "s3 = ask_item x ?s2" by simp
  with f1 f4 p Continue show ?thesis by simp
qed

text \<open>
  Claim C2. Mode selection: in every iteration of the dialogue loop the branch taken
  (the \<open>manager_type\<close> of the decision the iteration logs) is a function of the
  state at the head of the iteration alone: post-DSM if and only if the pool is empty;
  otherwise forced DSM coverage if and only if the remaining total turns are at most the
  pending items; otherwise low-turns if and only if the ratio of remaining DSM turns to
  pending items is below the target, and normal otherwise. In the forced branch the
  item asked is the first of the pool, whatever the manager call returned.
\<close>

theorem mode_selection:
  assumes "loop_body rt ag vs s = Inr sig"
  shows "(\<exists>e. doctor_manager_decisions (signal_state sig) = doctor_manager_decisions s @ [e] \<and>
            manager_type e =
              (if dsm_pool s = [] then ''post_dsm''
               else if max_doctor_turns (budget s) - doctor_turns_elapsed s \<le> length (dsm_pool s)
                 then ''forced_dsm_coverage''
               else if (of_nat (dsm_turn_budget (budget s) - doctor_turns_elapsed s) :: rat)
                         / of_nat (length (dsm_pool s)) < target_turns_per_symptom (budget s)
                 then ''low_turns''
               else ''normal'')) \<and>
         (dsm_pool s \<noteq> [] \<and>
          max_doctor_turns (budget s) - doctor_turns_elapsed s \<le> length (dsm_pool s) \<longrightarrow>
            asked_question_order (signal_state sig) = asked_question_order s @ [hd (dsm_pool s)] \<and>
            dsm_pool (signal_state sig) = tl (dsm_pool s))"
proof -
  from loop_body_log [OF assms] obtain outcome where
    o: "doctor_manager_step rt ag s = Inr outcome" and
    l: "doctor_manager_decisions (signal_state sig) = doctor_manager_decisions (outcome_state outcome)"
    by blast
  from doctor_manager_step_log [OF o] l have A:
    "\<exists>e. doctor_manager_decisions (signal_state sig) = doctor_manager_decisions s @ [e] \<and>
            manager_type e =
              (if dsm_pool s = [] then ''post_dsm''
               else if max_doctor_turns (budget s) - doctor_turns_elapsed s \<le> length (dsm_pool s)
                 then ''forced_dsm_coverage''
               else if (of_nat (dsm_turn_budget (budget s) - doctor_turns_elapsed s) :: rat)
                         / of_nat (length (dsm_pool s)) < target_turns_per_symptom (budget s)
                 then ''low_turns''
               else ''normal'')"
    by simp
  have B: "asked_question_order (signal_state sig) = asked_question_order s @ [hd (dsm_pool s)] \<and>
            dsm_pool (signal_state sig) = tl (dsm_pool s)"
    if "dsm_pool s \<noteq> []"
      and "max_doctor_turns (budget s) - doctor_turns_elapsed s \<le> length (dsm_pool s)"
  proof -
    from that(1) obtain x xs where p: "dsm_pool s = x # xs" by (cases "dsm_pool s") auto
    from loop_body_forced [OF assms p that(2)] p show ?thesis by simp
  qed
  from A B show ?thesis by blast
qed

text \<open>
  An iteration the theorem applies to: fifteen turns have gone by with no item
  asked, nine turns remain for nine items, and the manager still answers FOLLOW\_UP.
\<close>

definition forced_start :: session_state where
  "forced_start = sample_start\<lparr>doctor_turns_elapsed := 15\<rparr>"

lemma forced_start_fields:
  "dsm_pool forced_start = DSM_ITEMS"
  "asked_question_order forced_start = []"
  "doctor_turns_elapsed forced_start = 15"
  "max_doctor_turns (budget forced_start) = 24"
  by (simp_all add: forced_start_def sample_start_fields)

theorem mode_selection_witness:
  "\<exists>sig. loop_body sample_runtime follow_up_agents (VOICE_STYLE sample_personality) forced_start
            = Inr sig \<and>
     dsm_pool forced_start \<noteq> [] \<and>
     max_doctor_turns (budget forced_start) - doctor_turns_elapsed forced_start
       \<le> length (dsm_pool forced_start) \<and>
     (\<exists>e. doctor_manager_decisions (signal_state sig) =
             doctor_manager_decisions forced_start @ [e] \<and>
           manager_type e = ''forced_dsm_coverage'') \<and>
     asked_question_order (signal_state sig) = [''Depressed mood''] \<and>
     dsm_pool (signal_state sig) = tl DSM_ITEMS"
proof -
  have kb: "key_bound forced_start"
    by (simp add: key_bound_def forced_start_fields DSM_ITEMS_def)
  from loop_body_usable [OF usable_follow_up_agents kb] obtain sig where
    b: "loop_body sample_runtime follow_up_agents (VOICE_STYLE sample_personality) forced_start
          = Inr sig" ..
  have ne: "dsm_pool forced_start \<noteq> []"
    and f: "max_doctor_turns (budget forced_start) - doctor_turns_elapsed forced_start
       \<le> length (dsm_pool forced_start)"
    by (simp_all add: forced_start_fields DSM_ITEMS_def)
  have hd: "hd (dsm_pool forced_start) = ''Depressed mood''"
    by (simp add: forced_start_fields DSM_ITEMS_def)
  from mode_selection [OF b] ne f hd
  have "(\<exists>e. doctor_manager_decisions (signal_state sig) =
             doctor_manager_decisions forced_start @ [e] \<and>
           manager_type e = ''forced_dsm_coverage'') \<and>
     asked_question_order (signal_state sig) = [''Depressed mood''] \<and>
     dsm_pool (signal_state sig) = tl DSM_ITEMS"
    by (simp add: forced_start_fields)
  with b ne f show ?thesis by blast
qed

section \<open>The turn counter and the budget\<close>

lemma dialogue_loop_counter:
  assumes "dialogue_loop rt ag vs s = Inr s'"
  shows "budget s' = budget s \<and> doctor_turns_elapsed s \<le> doctor_turns_elapsed s' \<and>
         (doctor_turns_elapsed s \<le> max_doctor_turns (budget s) \<longrightarrow>
            doctor_turns_elapsed s' \<le> max_doctor_turns (budget s))"
  using assms
proof (induction rt ag vs s rule: dialogue_loop.induct)
  case (1 rt ag vs s)
  show ?case
  proof (cases "doctor_turns_elapsed s < max_doctor_turns (budget s)")
    case False
    with "1.prems" show ?thesis by (simp add: dialogue_loop.simps)
  next
    case True
    show ?thesis
    proof (cases "loop_body rt ag vs s")
      case (Inl e)
      with True "1.prems" show ?thesis by (simp add: dialogue_loop.simps)
    next
      case (Inr sig)
      show ?thesis
      proof (cases sig)
        case (Break s1)
        with Inr True "1.prems" have "s' = s1" by (simp add: dialogue_loop.simps)
        moreover from Inr Break have "loop_body rt ag vs s = Inr (Break s1)" by simp
        note loop_body_Break [OF this]
        ultimately show ?thesis using True by simp
      next
        case (Continue s1)
        with Inr have lb: "loop_body rt ag vs s = Inr (Continue s1)" by simp
        with True "1.prems" have run: "dialogue_loop rt ag vs s1 = Inr s'"
          by (simp add: dialogue_loop.simps)
        from "1.IH" [OF True Inr Continue run] loop_body_Continue [OF lb] True
        show ?thesis by simp
      qed
    qed
  qed
qed

text \<open>
  The states at the head of the loop during a run: one step is an iteration that is
  entered, which the loop does only while the counter is below the limit, and that
  completes.
\<close>

definition loop_iteration ::
  "runtime \<Rightarrow> agents \<Rightarrow> (string \<times> string) list \<Rightarrow> session_state \<Rightarrow> session_state \<Rightarrow> bool" where
  "loop_iteration rt ag vs s s' \<longleftrightarrow>
     doctor_turns_elapsed s < max_doctor_turns (budget s) \<and>
     loop_body rt ag vs s = Inr (Continue s')"

lemma loop_iteration_reach:
  assumes "(loop_iteration rt ag vs)\<^sup>*\<^sup>* s0 s"
    and "doctor_turns_elapsed s0 \<le> max_doctor_turns (budget s0)"
  shows "budget s = budget s0 \<and> doctor_turns_elapsed s0 \<le> doctor_turns_elapsed s \<and>
         doctor_turns_elapsed s \<le> max_doctor_turns (budget s0)"
  using assms
proof (induction rule: rtranclp_induct)
  case base
  then show ?case by simp
next
  case (step y z)
  from step.hyps(2) have "doctor_turns_elapsed y < max_doctor_turns (budget y)"
    and "loop_body rt ag vs y = Inr (Continue z)"
    by (simp_all add: loop_iteration_def)
  with loop_body_Continue [of rt ag vs y z] step.IH [OF step.prems] show ?case by simp
qed

lemma post_dsm_malformed_ends:
  assumes "dsm_pool s = []"
    and "doctor_manager_agent ag (doctor_turns_elapsed s) = Some out"
    and "json_loads rt (strip_code_fences out) = None"
  shows "\<exists>s'. loop_body rt ag vs s = Inr (Break s')"
  using assms
  by (simp add: loop_body_def doctor_manager_step_def call_def
      parse_post_dsm_manager_output_def Let_def)

definition covered_state :: session_state where
  "covered_state =
     sample_start\<lparr>dsm_pool := [], asked_question_order := DSM_ITEMS,
                  doctor_turns_elapsed := 9,
                  var_dsm_symptom_key := Some (JStr ''Recurrent thoughts of death or suicide'')\<rparr>"

lemma covered_state_fields:
  "dsm_pool covered_state = []"
  "doctor_turns_elapsed covered_state = 9"
  "max_doctor_turns (budget covered_state) = 24"
  by (simp_all add: covered_state_def sample_start_fields)

lemma covered_state_ends:
  "\<exists>s'. loop_body sample_runtime malformed_agents (VOICE_STYLE sample_personality) covered_state
          = Inr (Break s')"
  by (rule post_dsm_malformed_ends [where out = "''not json''"])
     (simp_all add: covered_state_fields malformed_agents_def sample_json_loads)

text \<open>
  Claim C4, as stated, fails: the iteration that ends the session leaves the counter
  alone. With the nine items asked after nine turns and a post-DSM manager reply that
  is not JSON, the decision falls back to END and the loop breaks before the increment.
\<close>

theorem turn_counter_counterexample:
  "\<not> (\<forall>rt ag vs s sig.
        doctor_turns_elapsed s < max_doctor_turns (budget s) \<longrightarrow>
        loop_body rt ag vs s = Inr sig \<longrightarrow>
        doctor_turns_elapsed (signal_state sig) = doctor_turns_elapsed s + 1)"
proof
  assume a: "\<forall>rt ag vs s sig.
        doctor_turns_elapsed s < max_doctor_turns (budget s) \<longrightarrow>
        loop_body rt ag vs s = Inr sig \<longrightarrow>
        doctor_turns_elapsed (signal_state sig) = doctor_turns_elapsed s + 1"
  from covered_state_ends obtain s' where
    b: "loop_body sample_runtime malformed_agents (VOICE_STYLE sample_personality) covered_state
          = Inr (Break s')" ..
  have "doctor_turns_elapsed covered_state < max_doctor_turns (budget covered_state)"
    by (simp add: covered_state_fields)
  with a b have "doctor_turns_elapsed (signal_state (Break s')) = doctor_turns_elapsed covered_state + 1"
    by blast
  moreover from loop_body_Break [OF b]
  have "doctor_turns_elapsed s' = doctor_turns_elapsed covered_state" by simp
  ultimately show False by simp
qed

text \<open>
  Claim C4, amended. Budget bound invariant: a session starts with the counter at 0;
  throughout a run of the loop the budget is the one the run started with and the
  counter never decreases and never exceeds \<open>max_doctor_turns\<close>; an iteration is
  entered only while the counter is below \<open>max_doctor_turns\<close>; an iteration that
  completes adds exactly one to the counter and the iteration that ends the session
  with END leaves it unchanged; the counter of the final state is between the counter
  at the head of any iteration and \<open>max_doctor_turns\<close>.
\<close>

theorem turn_counter_bound:
  assumes "doctor_turns_elapsed s0 \<le> max_doctor_turns (budget s0)"
    and "(loop_iteration rt ag vs)\<^sup>*\<^sup>* s0 s"
  shows "doctor_turns_elapsed (initial_state p ms persona g) = 0 \<and>
         budget s = budget s0 \<and>
         doctor_turns_elapsed s0 \<le> doctor_turns_elapsed s \<and>
         doctor_turns_elapsed s \<le> max_doctor_turns (budget s0) \<and>
         (\<forall>s'. loop_iteration rt ag vs s s' \<longrightarrow>
            doctor_turns_elapsed s < max_doctor_turns (budget s0) \<and>
            doctor_turns_elapsed s' = doctor_turns_elapsed s + 1) \<and>
         (\<forall>s'. loop_body rt ag vs s = Inr (Break s') \<longrightarrow>
            doctor_turns_elapsed s' = doctor_turns_elapsed s) \<and>
         (\<forall>sf. dialogue_loop rt ag vs s = Inr sf \<longrightarrow>
            doctor_turns_elapsed s \<le> doctor_turns_elapsed sf \<and>
            doctor_turns_elapsed sf \<le> max_doctor_turns (budget s0) \<and>
            budget sf = budget s0) \<and>
         (\<not> doctor_turns_elapsed s < max_doctor_turns (budget s) \<longrightarrow>
            dialogue_loop rt ag vs s = Inr s)"
proof -
  have z: "doctor_turns_elapsed (initial_state p ms persona g) = 0"
    by (simp add: initial_state_def)
  from loop_iteration_reach [OF assms(2) assms(1)]
  have b: "budget s = budget s0" and ge: "doctor_turns_elapsed s0 \<le> doctor_turns_elapsed s"
    and le: "doctor_turns_elapsed s \<le> max_doctor_turns (budget s0)"
    by simp_all
  have it: "doctor_turns_elapsed s < max_doctor_turns (budget s0) \<and>
            doctor_turns_elapsed s' = doctor_turns_elapsed s + 1"
    if "loop_iteration rt ag vs s s'" for s'
    using that b loop_body_Continue [of rt ag vs s s'] by (simp add: loop_iteration_def)
  have br: "doctor_turns_elapsed s' = doctor_turns_elapsed s"
    if "loop_body rt ag vs s = Inr (Break s')" for s'
    using loop_body_Break [OF that] by simp
  have fin: "doctor_turns_elapsed s \<le> doctor_turns_elapsed sf \<and>
            doctor_turns_elapsed sf \<le> max_doctor_turns (budget s0) \<and>
            budget sf = budget s0"
    if "dialogue_loop rt ag vs s = Inr sf" for sf
    using dialogue_loop_counter [OF that] b le by simp
  have ex: "dialogue_loop rt ag vs s = Inr s"
    if "\<not> doctor_turns_elapsed s < max_doctor_turns (budget s)"
    using that by (simp add: dialogue_loop.simps)
  from z b ge le it br fin ex show ?thesis by blast
qed

text \<open>
  Three uses of the theorem: at the start of a session with a manager that answers
  FOLLOW\_UP (an iteration that completes, and a run to the end), at the state with the
  nine items asked and a manager reply that is not JSON (the iteration that ends the
  session), and at a state whose counter has reached the limit (no iteration entered).
\<close>

definition exhausted_state :: session_state where
  "exhausted_state = sample_start\<lparr>doctor_turns_elapsed := 24\<rparr>"

lemma loop_body_pending_continues:
  assumes "loop_body rt ag vs s = Inr sig" and "dsm_pool s \<noteq> []"
  obtains s' where "sig = Continue s'"
proof (cases sig)
  case (Break s')
  with assms(1) have "dsm_pool s = []" using loop_body_Break by blast
  with assms(2) show ?thesis by simp
next
  case (Continue s')
  then show ?thesis by (rule that)
qed

theorem turn_counter_bound_witness:
  "doctor_turns_elapsed sample_start \<le> max_doctor_turns (budget sample_start) \<and>
   (loop_iteration sample_runtime follow_up_agents (VOICE_STYLE sample_personality))\<^sup>*\<^sup>*
      sample_start sample_start \<and>
   (\<exists>s'. loop_iteration sample_runtime follow_up_agents (VOICE_STYLE sample_personality)
           sample_start s' \<and> doctor_turns_elapsed s' = 1) \<and>
   (\<exists>sf. dialogue_loop sample_runtime follow_up_agents (VOICE_STYLE sample_personality)
           sample_start = Inr sf \<and> doctor_turns_elapsed sf \<le> 24) \<and>
   (\<exists>s'. loop_body sample_runtime malformed_agents (VOICE_STYLE sample_personality)
           covered_state = Inr (Break s') \<and> doctor_turns_elapsed s' = 9) \<and>
   \<not> doctor_turns_elapsed exhausted_state < max_doctor_turns (budget exhausted_state) \<and>
   dialogue_loop sample_runtime follow_up_agents (VOICE_STYLE sample_personality)
     exhausted_state = Inr exhausted_state"
proof -
  let ?vs = "VOICE_STYLE sample_personality"
  have h1: "doctor_turns_elapsed sample_start \<le> max_doctor_turns (budget sample_start)"
    by (simp add: sample_start_fields)
  have h2: "(loop_iteration sample_runtime follow_up_agents ?vs)\<^sup>*\<^sup>* sample_start sample_start"
    by simp
  note T = turn_counter_bound [OF h1 h2]
  from loop_body_usable [OF usable_follow_up_agents key_bound_sample_start] obtain sig where
    "loop_body sample_runtime follow_up_agents ?vs sample_start = Inr sig" ..
  moreover have "dsm_pool sample_start \<noteq> []" by (simp add: sample_start_fields DSM_ITEMS_def)
  ultimately obtain s' where
    b: "loop_body sample_runtime follow_up_agents ?vs sample_start = Inr (Continue s')"
    by (auto elim: loop_body_pending_continues)
  then have it: "loop_iteration sample_runtime follow_up_agents ?vs sample_start s'"
    by (simp add: loop_iteration_def sample_start_fields)
  with T have "doctor_turns_elapsed s' = 1" by (simp add: sample_start_fields)
  with it have A: "\<exists>s'. loop_iteration sample_runtime follow_up_agents ?vs sample_start s' \<and>
      doctor_turns_elapsed s' = 1" by blast
  from dialogue_loop_usable [OF usable_follow_up_agents key_bound_sample_start] obtain sf where
    r: "dialogue_loop sample_runtime follow_up_agents ?vs sample_start = Inr sf" by blast
  with T have "doctor_turns_elapsed sf \<le> 24" by (simp add: sample_start_fields)
  with r have B: "\<exists>sf. dialogue_loop sample_runtime follow_up_agents ?vs sample_start = Inr sf \<and>
      doctor_turns_elapsed sf \<le> 24" by blast
  have c1: "doctor_turns_elapsed covered_state \<le> max_doctor_turns (budget covered_state)"
    by (simp add: covered_state_fields)
  have c2: "(loop_iteration sample_runtime malformed_agents ?vs)\<^sup>*\<^sup>* covered_state covered_state"
    by simp
  from covered_state_ends obtain s'' where
    e: "loop_body sample_runtime malformed_agents ?vs covered_state = Inr (Break s'')" ..
  with turn_counter_bound [OF c1 c2] have "doctor_turns_elapsed s'' = 9"
    by (simp add: covered_state_fields)
  with e have C: "\<exists>s'. loop_body sample_runtime malformed_agents ?vs covered_state = Inr (Break s') \<and>
      doctor_turns_elapsed s' = 9" by blast
  have x0: "doctor_turns_elapsed exhausted_state = 24"
    and x1: "max_doctor_turns (budget exhausted_state) = 24"
    by (simp_all add: exhausted_state_def sample_start_fields)
  have e1: "doctor_turns_elapsed exhausted_state \<le> max_doctor_turns (budget exhausted_state)"
    by (simp add: x0 x1)
  have e2: "(loop_iteration sample_runtime follow_up_agents ?vs)\<^sup>*\<^sup>* exhausted_state exhausted_state"
    by simp
  have D: "\<not> doctor_turns_elapsed exhausted_state < max_doctor_turns (budget exhausted_state)"
    by (simp add: x0 x1)
  with turn_counter_bound [OF e1 e2]
  have E: "dialogue_loop sample_runtime follow_up_agents ?vs exhausted_state = Inr exhausted_state"
    by blast
  from h1 h2 A B C D E show ?thesis by blast
qed

section \<open>The turn budget\<close>

lemma loop_iteration_budget:
  assumes "(loop_iteration rt ag vs)\<^sup>*\<^sup>* s s'"
  shows "budget s' = budget s"
  using assms
proof (induction rule: rtranclp_induct)
  case base
  show ?case by simp
next
  case (step y z)
  from step.hyps(2) have "loop_body rt ag vs y = Inr (Continue z)"
    by (simp add: loop_iteration_def)
  from loop_body_Continue [OF this] step.IH show ?case by simp
qed

lemma close_session_budget:
  assumes "close_session ag s = Inr s'"
  shows "budget s' = budget s"
  using assms
  by (auto simp: close_session_def then_do_eq_Inr split: list.splits if_splits)

lemma run_patient_doctor_session_budget:
  assumes "run_patient_doctor_session rt ag p ms persona g = Inr final"
  shows "budget final = compute_turn_budget ms (persona_id persona)"
proof -
  from assms obtain s1 s2 where
    1: "patient_turn rt ag (VOICE_STYLE p) 0 1 (JStr ''RAPPORT'') False (initial_state p ms persona g)
          = Inr s1"
    and 2: "dialogue_loop rt ag (VOICE_STYLE p) s1 = Inr s2"
    and 3: "close_session ag s2 = Inr final"
    unfolding run_patient_doctor_session_def then_do_eq_Inr by blast
  from patient_turn_frame [OF 1] dialogue_loop_counter [OF 2] close_session_budget [OF 3]
  show ?thesis by (simp add: initial_state_def)
qed

subsection \<open>Sessions that complete\<close>

lemma doctor_manager_step_history:
  assumes "doctor_manager_step rt ag s = Inr outcome" and "conversation_history s \<noteq> []"
  shows "conversation_history (outcome_state outcome) \<noteq> []"
proof (cases outcome)
  case (End s1)
  with assms(1) show ?thesis
    by (auto simp: doctor_manager_step_def Let_def then_do_eq_Inr
        split: if_splits list.splits prod.splits)
next
  case (Move na i s1)
  with assms doctor_manager_step_Move [of rt ag s na i s1] show ?thesis by simp
qed

lemma loop_body_history:
  assumes "loop_body rt ag vs s = Inr sig" and "conversation_history s \<noteq> []"
  shows "conversation_history (signal_state sig) \<noteq> []"
proof (cases sig)
  case (Break s')
  with assms(1) have "doctor_manager_step rt ag s = Inr (End s')" by (simp add: loop_body_BreakD)
  from doctor_manager_step_history [OF this assms(2)] Break show ?thesis by simp
next
  case (Continue s')
  with assms(1) have "loop_body rt ag vs s = Inr (Continue s')" by simp
  then obtain na i s1 i' s3 reply where
    1: "doctor_manager_step rt ag s = Inr (Move na i s1)" and
    2: "apply_decision na i (s1\<lparr>doctor_turns_elapsed := doctor_turns_elapsed s1 + 1\<rparr>) = Inr (i', s3)" and
    3: "call (doctor_agent ag) (doctor_turns_elapsed s1) = Inr reply" and
    4: "patient_turn rt ag vs (doctor_turns_elapsed s1 + 1) (doctor_turns_elapsed s1 + 1) na True
       (s3\<lparr>conversation_history := conversation_history s3 @ [(''assistant'', reply)]\<rparr>) = Inr s'"
    by (rule loop_body_ContinueE)
  from 4 have "conversation_history s' \<noteq> []"
    by (auto simp: patient_turn_def then_do_eq_Inr)
  with Continue show ?thesis by simp
qed

lemma dialogue_loop_history:
  assumes "dialogue_loop rt ag vs s = Inr s'" and "conversation_history s \<noteq> []"
  shows "conversation_history s' \<noteq> []"
  using assms
proof (induction rt ag vs s rule: dialogue_loop.induct)
  case (1 rt ag vs s)
  show ?case
  proof (cases "doctor_turns_elapsed s < max_doctor_turns (budget s)")
    case False
    with "1.prems" show ?thesis by (simp add: dialogue_loop.simps)
  next
    case True
    show ?thesis
    proof (cases "loop_body rt ag vs s")
      case (Inl e)
      with True "1.prems" show ?thesis by (simp add: dialogue_loop.simps)
    next
      case (Inr sig)
      note h = loop_body_history [OF Inr "1.prems"(2)]
      show ?thesis
      proof (cases sig)
        case (Break s1)
        with Inr True "1.prems" h show ?thesis by (simp add: dialogue_loop.simps)
      next
        case (Continue s1)
        with Inr True "1.prems" have run: "dialogue_loop rt ag vs s1 = Inr s'"
          by (simp add: dialogue_loop.simps)
        from h Continue have "conversation_history s1 \<noteq> []" by simp
        from "1.IH" [OF True Inr Continue run this] show ?thesis .
      qed
    qed
  qed
qed

lemma close_session_usable:
  assumes "usable_agents rt ag" and "conversation_history s \<noteq> []"
  shows "\<exists>s'. close_session ag s = Inr s'"
proof -
  from assms(1) obtain reply where "call (doctor_agent ag) (doctor_turns_elapsed s) = Inr reply"
    unfolding usable_agents_def call_def by (metis not_None_eq option.simps(5))
  with assms(2) show ?thesis
    by (cases "conversation_history s") (simp_all add: close_session_def)
qed

lemma run_patient_doctor_session_usable:
  assumes ua: "usable_agents rt ag"
  shows "\<exists>final. run_patient_doctor_session rt ag p ms persona g = Inr final"
proof -
  let ?s0 = "initial_state p ms persona g"
  have "\<not> False \<or> JStr ''RAPPORT'' \<noteq> JStr ''DSM'' \<or> (\<exists>x. var_dsm_symptom_key ?s0 = Some (JStr x))"
    by simp
  from patient_turn_usable [OF ua this] obtain s1 where
    1: "patient_turn rt ag (VOICE_STYLE p) 0 1 (JStr ''RAPPORT'') False ?s0 = Inr s1" by blast
  from patient_turn_frame [OF 1] have "dsm_pool s1 = DSM_ITEMS" by (simp add: initial_state_def)
  then have "key_bound s1" by (simp add: key_bound_def DSM_ITEMS_def)
  from dialogue_loop_usable [OF ua this] obtain s2 where
    2: "dialogue_loop rt ag (VOICE_STYLE p) s1 = Inr s2" by blast
  from 1 have "conversation_history s1 \<noteq> []"
    by (auto simp: patient_turn_def then_do_eq_Inr)
  from dialogue_loop_history [OF 2 this] have "conversation_history s2 \<noteq> []" .
  from close_session_usable [OF ua this] obtain final where "close_session ag s2 = Inr final" ..
  with 1 2 show ?thesis by (simp add: run_patient_doctor_session_def)
qed

text \<open>
  Claim C3. Turn-budget planner: for a microstyle pacing of slow, med or brisk the
  target turns per symptom is 2.5, 2.0 or 1.5, with 0.5 added and the sum capped at 3.0
  exactly when the persona is \<open>very_warm_chatty\<close> or \<open>trauma_informed_slow\<close>;
  \<open>max_doctor_turns\<close> is the ceiling of nine times the target, plus 5, plus 1, which is
  24 for pacing med and any other persona. The session starts with this budget, no
  iteration of the loop changes it, and a session that completes ends with it.
\<close>

theorem turn_budget_planner:
  assumes "dict_get doctor_microstyle ''pacing'' ''med'' = pacing"
    and "pacing \<in> {''slow'', ''med'', ''brisk''}"
  shows "target_turns_per_symptom (compute_turn_budget doctor_microstyle (persona_id persona)) =
           (if persona_id persona \<in> {''very_warm_chatty'', ''trauma_informed_slow''}
            then min ((if pacing = ''slow'' then 5 / 2 else if pacing = ''med'' then 2 else 3 / 2)
                      + 1 / 2) 3
            else (if pacing = ''slow'' then 5 / 2 else if pacing = ''med'' then 2 else 3 / 2)) \<and>
         max_doctor_turns (compute_turn_budget doctor_microstyle (persona_id persona)) =
           nat \<lceil>target_turns_per_symptom
                  (compute_turn_budget doctor_microstyle (persona_id persona)) * 9\<rceil> + 5 + 1 \<and>
         (pacing = ''med'' \<and>
          persona_id persona \<notin> {''very_warm_chatty'', ''trauma_informed_slow''} \<longrightarrow>
            max_doctor_turns (compute_turn_budget doctor_microstyle (persona_id persona)) = 24) \<and>
         budget (initial_state p doctor_microstyle persona g) =
           compute_turn_budget doctor_microstyle (persona_id persona) \<and>
         (\<forall>rt ag vs s s'. (loop_iteration rt ag vs)\<^sup>*\<^sup>* s s' \<longrightarrow> budget s' = budget s) \<and>
         (\<forall>rt ag final.
            run_patient_doctor_session rt ag p doctor_microstyle persona g = Inr final \<longrightarrow>
            budget final = compute_turn_budget doctor_microstyle (persona_id persona))"
proof -
  let ?b = "compute_turn_budget doctor_microstyle (persona_id persona)"
  from assms have base:
    "dict_get PACING_TARGETS (dict_get doctor_microstyle ''pacing'' ''med'') 2 =
       (if pacing = ''slow'' then 5 / 2 else if pacing = ''med'' then 2 else 3 / 2)"
    by (auto simp: PACING_TARGETS_def dict_get_def)
  have t: "target_turns_per_symptom ?b =
           (if persona_id persona \<in> {''very_warm_chatty'', ''trauma_informed_slow''}
            then min ((if pacing = ''slow'' then 5 / 2 else if pacing = ''med'' then 2 else 3 / 2)
                      + 1 / 2) 3
            else (if pacing = ''slow'' then 5 / 2 else if pacing = ''med'' then 2 else 3 / 2))"
    unfolding compute_turn_budget_def Let_def base EXTENDED_PACING_PERSONAS_def by simp
  have m: "max_doctor_turns ?b = nat \<lceil>target_turns_per_symptom ?b * 9\<rceil> + 5 + 1"
    by (simp add: compute_turn_budget_def Let_def NUM_DSM_ITEMS_def BUFFER_TURNS_def)
  have m24: "max_doctor_turns ?b = 24"
    if "pacing = ''med''"
      and "persona_id persona \<notin> {''very_warm_chatty'', ''trauma_informed_slow''}"
  proof -
    from that t have "target_turns_per_symptom ?b = 2" by simp
    with m show ?thesis by simp
  qed
  have i: "budget (initial_state p doctor_microstyle persona g) = ?b"
    by (simp add: initial_state_def)
  from t m m24 i loop_iteration_budget run_patient_doctor_session_budget
  show ?thesis by blast
qed

text \<open>
  A session the theorem applies to: pacing med, persona \<open>neutral_efficient\<close>, a manager
  that answers FOLLOW\_UP at every turn.
\<close>

theorem turn_budget_planner_witness:
  "dict_get sample_microstyle ''pacing'' ''med'' = ''med'' \<and>
   ''med'' \<in> {''slow'', ''med'', ''brisk''} \<and>
   persona_id sample_persona \<notin> {''very_warm_chatty'', ''trauma_informed_slow''} \<and>
   target_turns_per_symptom (compute_turn_budget sample_microstyle (persona_id sample_persona)) = 2 \<and>
   max_doctor_turns (compute_turn_budget sample_microstyle (persona_id sample_persona)) = 24 \<and>
   (\<exists>final. run_patient_doctor_session sample_runtime follow_up_agents sample_personality
               sample_microstyle sample_persona sample_rng = Inr final \<and>
             max_doctor_turns (budget final) = 24)"
proof -
  have 1: "dict_get sample_microstyle ''pacing'' ''med'' = ''med''"
    by (simp add: sample_microstyle_def dict_get_def)
  have 2: "''med'' \<in> {''slow'', ''med'', ''brisk''}" by simp
  have 3: "persona_id sample_persona \<notin> {''very_warm_chatty'', ''trauma_informed_slow''}"
    by (simp add: sample_persona_def)
  note T = turn_budget_planner [OF 1 2, of sample_persona sample_personality sample_rng]
  from T 3 have t: "target_turns_per_symptom
      (compute_turn_budget sample_microstyle (persona_id sample_persona)) = 2" by simp
  from T 3 have m: "max_doctor_turns
      (compute_turn_budget sample_microstyle (persona_id sample_persona)) = 24" by blast
  from run_patient_doctor_session_usable [OF usable_follow_up_agents] obtain final where
    r: "run_patient_doctor_session sample_runtime follow_up_agents sample_personality
          sample_microstyle sample_persona sample_rng = Inr final" by blast
  with T have "budget final = compute_turn_budget sample_microstyle (persona_id sample_persona)"
    by blast
  with m r have "\<exists>final. run_patient_doctor_session sample_runtime follow_up_agents
      sample_personality sample_microstyle sample_persona sample_rng = Inr final \<and>
      max_doctor_turns (budget final) = 24" by simp
  with 1 2 3 t m show ?thesis by blast
qed

section \<open>Fallbacks of the decision step\<close>












section \<open>The disclosure state\<close>





section \<open>Profile generation (profile\_generation.py)\<close>

subsection \<open>Templates (data/templates.py)\<close>





subsection \<open>The frequency profile\<close>



























end
